theory Spec2Isabelle
  imports Main
begin

section \<open>Go runtime and library functions used by the lexer and the parser\<close>

text \<open>
  A Go \<^verbatim>\<open>string\<close> is a byte sequence, modelled as a \<^typ>\<open>char list\<close> (an Isabelle
  \<^typ>\<open>char\<close> is one byte). The lexer reads one byte and converts it with
  \<^verbatim>\<open>rune(l.input[l.index])\<close>, so every rune it sees is a number below 256. Runtime
  panics are values of the type \<open>error\<close>.
\<close>

datatype error = IndexOutOfRange | SliceOutOfRange | NoTokens

type_synonym rune = nat

definition rune_of_byte :: "char \<Rightarrow> rune" where
  "rune_of_byte c = of_char c"

text \<open>\<^verbatim>\<open>string(r)\<close> for a rune below 256: its UTF-8 encoding, one byte below 128, two above.\<close>

definition string_of_rune :: "rune \<Rightarrow> string" where
  "string_of_rune r =
     (if r < 128 then [char_of r]
      else [char_of (192 + r div 64), char_of (128 + r mod 64)])"

text \<open>\<^verbatim>\<open>unicode.IsSpace\<close>, \<^verbatim>\<open>unicode.IsDigit\<close> and \<^verbatim>\<open>unicode.IsLetter\<close> on the Latin-1 range.\<close>

definition IsSpace :: "rune \<Rightarrow> bool" where
  "IsSpace r = (r = 9 \<or> r = 10 \<or> r = 11 \<or> r = 12 \<or> r = 13 \<or> r = 32 \<or> r = 133 \<or> r = 160)"

definition IsDigit :: "rune \<Rightarrow> bool" where
  "IsDigit r = (48 \<le> r \<and> r \<le> 57)"

definition IsLetter :: "rune \<Rightarrow> bool" where
  "IsLetter r =
     ((65 \<le> r \<and> r \<le> 90) \<or> (97 \<le> r \<and> r \<le> 122) \<or> r = 170 \<or> r = 181 \<or> r = 186 \<or>
      (192 \<le> r \<and> r \<le> 214) \<or> (216 \<le> r \<and> r \<le> 246) \<or> (248 \<le> r \<and> r \<le> 255))"

text \<open>The slice expression \<^verbatim>\<open>s[a:b]\<close>, which panics unless \<open>a \<le> b \<le> len(s)\<close>.\<close>

definition slice :: "string \<Rightarrow> nat \<Rightarrow> nat \<Rightarrow> error + string" where
  "slice s a b = (if a \<le> b \<and> b \<le> length s then Inr (take (b - a) (drop a s)) else Inl SliceOutOfRange)"

section \<open>Tokens (lexer/lexer.go)\<close>

type_synonym TokenType = string

abbreviation ILLEGAL :: TokenType where "ILLEGAL \<equiv> ''ILLEGAL''"
abbreviation EOF :: TokenType where "EOF \<equiv> ''EOF''"
abbreviation NL :: TokenType where "NL \<equiv> ''NEWLINE''"
abbreviation IDENT :: TokenType where "IDENT \<equiv> ''IDENT''"
abbreviation IF :: TokenType where "IF \<equiv> ''IF''"
abbreviation ELIF :: TokenType where "ELIF \<equiv> ''ELIF''"
abbreviation ELSE :: TokenType where "ELSE \<equiv> ''ELSE''"
abbreviation WHILE :: TokenType where "WHILE \<equiv> ''WHILE''"
abbreviation FOR :: TokenType where "FOR \<equiv> ''FOR''"
abbreviation IN :: TokenType where "IN \<equiv> ''IN''"
abbreviation PRINT :: TokenType where "PRINT \<equiv> ''PRINT''"
abbreviation INT_kw :: TokenType where "INT_kw \<equiv> ''INT''"
abbreviation STR_kw :: TokenType where "STR_kw \<equiv> ''STR''"
abbreviation AND_kw :: TokenType where "AND_kw \<equiv> ''AND''"
abbreviation OR_kw :: TokenType where "OR_kw \<equiv> ''OR''"
abbreviation STRING :: TokenType where "STRING \<equiv> ''STRING''"
abbreviation NUM :: TokenType where "NUM \<equiv> ''NUM''"
abbreviation LEFTPAREN :: TokenType where "LEFTPAREN \<equiv> ''(''"
abbreviation RIGHTPAREN :: TokenType where "RIGHTPAREN \<equiv> '')''"
abbreviation COLON :: TokenType where "COLON \<equiv> '':''"
abbreviation EQUALS :: TokenType where "EQUALS \<equiv> ''=''"
abbreviation COMMA :: TokenType where "COMMA \<equiv> '',''"
abbreviation INDENT :: TokenType where "INDENT \<equiv> ''INDENT''"
abbreviation ADD :: TokenType where "ADD \<equiv> ''+''"
abbreviation SUB :: TokenType where "SUB \<equiv> ''-''"
abbreviation MULT :: TokenType where "MULT \<equiv> ''*''"
abbreviation DIV :: TokenType where "DIV \<equiv> ''/''"
abbreviation MOD :: TokenType where "MOD \<equiv> ''%''"
abbreviation POW :: TokenType where "POW \<equiv> ''^''"
abbreviation NOT_op :: TokenType where "NOT_op \<equiv> ''!''"
abbreviation ADDEQ :: TokenType where "ADDEQ \<equiv> ''+=''"
abbreviation SUBEQ :: TokenType where "SUBEQ \<equiv> ''-=''"
abbreviation MULTEQ :: TokenType where "MULTEQ \<equiv> ''*=''"
abbreviation DIVEQ :: TokenType where "DIVEQ \<equiv> ''/=''"
abbreviation MODEQ :: TokenType where "MODEQ \<equiv> ''%=''"
abbreviation POWEQ :: TokenType where "POWEQ \<equiv> ''^=''"
abbreviation LESS :: TokenType where "LESS \<equiv> ''<''"
abbreviation LESSEQ :: TokenType where "LESSEQ \<equiv> ''<=''"
abbreviation GREAT :: TokenType where "GREAT \<equiv> ''>''"
abbreviation GREATEQ :: TokenType where "GREATEQ \<equiv> ''>=''"
abbreviation EQ :: TokenType where "EQ \<equiv> ''==''"
abbreviation NOTEQ :: TokenType where "NOTEQ \<equiv> ''!=''"

text \<open>The \<^verbatim>\<open>tokenKey\<close> constants; the lexer also stores \<open>-1\<close>, and a fresh lexer holds \<open>0\<close>.\<close>

type_synonym tokenKey = int

abbreviation (input) TokenKeyword :: tokenKey where "TokenKeyword \<equiv> 1"
abbreviation (input) TokenPunct :: tokenKey where "TokenPunct \<equiv> 2"
abbreviation (input) TokenIdent :: tokenKey where "TokenIdent \<equiv> 3"
abbreviation (input) TokenInt :: tokenKey where "TokenInt \<equiv> 4"
abbreviation (input) TokenString :: tokenKey where "TokenString \<equiv> 5"

record tokenPos =
  row :: int
  col :: int

record Token =
  Name :: TokenType
  Val :: string
  Pos :: tokenPos

text \<open>The zero value \<^verbatim>\<open>Token{}\<close> that \<^verbatim>\<open>var tok Token\<close> declares.\<close>

definition Token_zero :: Token where
  "Token_zero = \<lparr>Name = [], Val = [], Pos = \<lparr>row = 0, col = 0\<rparr>\<rparr>"

definition GetCol :: "Token \<Rightarrow> int" where
  "GetCol t = col (Pos t)"

section \<open>The lexer (lexer/lexer.go)\<close>

record Lexer =
  index :: nat
  input :: string
  line :: int
  column :: int
  current :: rune
  currentType :: tokenKey
  tokens :: "Token list"

text \<open>
  \<^verbatim>\<open>peek\<close> returns the next byte, or a blank and the error "end of input" (the flag)
  when the index is on the last byte. Its test is \<open>\<noteq>\<close>, so past the last byte it reads out
  of range.
\<close>

definition peek :: "Lexer \<Rightarrow> error + (rune \<times> bool)" where
  "peek l =
     (if index l + 1 \<noteq> length (input l) then
        (if index l + 1 < length (input l)
         then Inr (rune_of_byte (input l ! (index l + 1)), False)
         else Inl IndexOutOfRange)
      else Inr (32, True))"

definition lexTab :: "Lexer \<Rightarrow> Lexer" where
  "lexTab l =
     (let tok = \<lparr>Name = INDENT, Val = INDENT, Pos = \<lparr>row = line l, col = column l\<rparr>\<rparr>
      in l\<lparr>column := column l + 3, tokens := tokens l @ [tok]\<rparr>)"

definition lexPunct :: "TokenType \<Rightarrow> string \<Rightarrow> Lexer \<Rightarrow> Lexer" where
  "lexPunct name val l =
     (let tok = \<lparr>Name = name, Val = val, Pos = \<lparr>row = line l, col = column l\<rparr>\<rparr>
      in l\<lparr>currentType := TokenPunct, tokens := tokens l @ [tok]\<rparr>)"

definition reserved :: "string list" where
  "reserved = [''if'', ''elif'', ''else'', ''while'', ''for'', ''in'', ''print'', ''int'',
               ''str'', ''and'', ''or'']"

text \<open>The \<^verbatim>\<open>switch tok.Val\<close> inside the loop over \<open>reserved\<close>.\<close>

definition keywordName :: "Token \<Rightarrow> Token" where
  "keywordName tok =
     (if Val tok = ''if'' then tok\<lparr>Name := IF\<rparr>
      else if Val tok = ''elif'' then tok\<lparr>Name := ELIF\<rparr>
      else if Val tok = ''else'' then tok\<lparr>Name := ELSE\<rparr>
      else if Val tok = ''while'' then tok\<lparr>Name := WHILE\<rparr>
      else if Val tok = ''for'' then tok\<lparr>Name := FOR\<rparr>
      else if Val tok = ''in'' then tok\<lparr>Name := IN\<rparr>
      else if Val tok = ''print'' then tok\<lparr>Name := PRINT\<rparr>
      else if Val tok = ''int'' then tok\<lparr>Name := INT_kw\<rparr>
      else if Val tok = ''str'' then tok\<lparr>Name := STR_kw\<rparr>
      else if Val tok = ''and'' then tok\<lparr>Name := AND_kw\<rparr>
      else if Val tok = ''or'' then tok\<lparr>Name := OR_kw\<rparr>
      else tok)"

definition lexText :: "string \<Rightarrow> Lexer \<Rightarrow> error + Lexer" where
  "lexText val l =
     (let r =
        (if currentType l = TokenKeyword then
           (if tokens l = [] then Inl IndexOutOfRange
            else Inr (l\<lparr>currentType := TokenIdent, tokens := butlast (tokens l)\<rparr>,
                      (last (tokens l))\<lparr>Name := IDENT, Val := Val (last (tokens l)) @ val\<rparr>))
         else if currentType l = TokenIdent then
           (if tokens l = [] then Inl IndexOutOfRange
            else Inr (l\<lparr>tokens := butlast (tokens l)\<rparr>,
                      (last (tokens l))\<lparr>Val := Val (last (tokens l)) @ val\<rparr>))
         else
           Inr (l\<lparr>currentType := TokenIdent\<rparr>,
                \<lparr>Name = IDENT, Val = val, Pos = \<lparr>row = line l, col = column l\<rparr>\<rparr>))
      in case r of
           Inl e \<Rightarrow> Inl e
         | Inr (l1, tok) \<Rightarrow>
             (let tok1 = foldl (\<lambda>t keyword. if Val t = keyword then keywordName t else t) tok reserved
              in Inr (l1\<lparr>tokens := tokens l1 @ [tok1]\<rparr>)))"

text \<open>The loop of \<^verbatim>\<open>lexString\<close>: \<^verbatim>\<open>for next != '"' { l.index++; if next, err = l.peek(); err != nil { break } }\<close>.\<close>

function lexString_loop :: "rune \<Rightarrow> Lexer \<Rightarrow> error + Lexer" where
  "lexString_loop nxt l =
     (if nxt \<noteq> 34 then
        (let l1 = l\<lparr>index := index l + 1\<rparr>
         in case peek l1 of
              Inl e \<Rightarrow> Inl e
            | Inr (nxt1, err) \<Rightarrow> if err then Inr l1 else lexString_loop nxt1 l1)
      else Inr l)"
  by pat_completeness auto
termination
  by (relation "measure (\<lambda>(nxt, l). length (input l) - index l)")
     (auto simp: peek_def split: if_splits)

declare lexString_loop.simps [simp del]

definition lexString :: "Lexer \<Rightarrow> error + Lexer" where
  "lexString l =
     (let l1 = l\<lparr>index := index l + 1\<rparr>;
          start = index l1;
          l2 = l1\<lparr>currentType := TokenString\<rparr>
      in case peek l2 of
           Inl e \<Rightarrow> Inl e
         | Inr (nxt, err) \<Rightarrow>
             if err then
               Inr (l2\<lparr>tokens := tokens l2 @
                     [\<lparr>Name = ILLEGAL, Val = [], Pos = \<lparr>row = line l2, col = column l2\<rparr>\<rparr>]\<rparr>)
             else
               (case lexString_loop nxt l2 of
                  Inl e \<Rightarrow> Inl e
                | Inr l3 \<Rightarrow>
                    (case slice (input l3) start (index l3 + 1) of
                       Inl e \<Rightarrow> Inl e
                     | Inr v \<Rightarrow>
                         Inr (l3\<lparr>tokens := tokens l3 @
                               [\<lparr>Name = STRING, Val = v, Pos = \<lparr>row = line l3, col = column l3\<rparr>\<rparr>],
                               index := index l3 + 1\<rparr>))))"

text \<open>The loop of \<^verbatim>\<open>lexInt\<close>: \<^verbatim>\<open>for unicode.IsDigit(next) { l.index++; if next, err = l.peek(); err != nil { break } }\<close>.\<close>

function lexInt_loop :: "rune \<Rightarrow> Lexer \<Rightarrow> error + Lexer" where
  "lexInt_loop nxt l =
     (if IsDigit nxt then
        (let l1 = l\<lparr>index := index l + 1\<rparr>
         in case peek l1 of
              Inl e \<Rightarrow> Inl e
            | Inr (nxt1, err) \<Rightarrow> if err then Inr l1 else lexInt_loop nxt1 l1)
      else Inr l)"
  by pat_completeness auto
termination
  by (relation "measure (\<lambda>(nxt, l). length (input l) - index l)")
     (auto simp: peek_def split: if_splits)

declare lexInt_loop.simps [simp del]

definition lexInt :: "Lexer \<Rightarrow> error + Lexer" where
  "lexInt l =
     (let start = index l;
          l1 = l\<lparr>currentType := TokenInt\<rparr>
      in case peek l1 of
           Inl e \<Rightarrow> Inl e
         | Inr (nxt, err) \<Rightarrow>
             if err then
               (if start < length (input l1) then
                  Inr (l1\<lparr>tokens := tokens l1 @
                        [\<lparr>Name = NUM, Val = string_of_rune (rune_of_byte (input l1 ! start)),
                          Pos = \<lparr>row = line l1, col = column l1\<rparr>\<rparr>]\<rparr>)
                else Inl IndexOutOfRange)
             else
               (case lexInt_loop nxt l1 of
                  Inl e \<Rightarrow> Inl e
                | Inr l2 \<Rightarrow>
                    (case slice (input l2) start (index l2 + 1) of
                       Inl e \<Rightarrow> Inl e
                     | Inr v \<Rightarrow>
                         Inr (l2\<lparr>tokens := tokens l2 @
                               [\<lparr>Name = NUM, Val = v, Pos = \<lparr>row = line l2, col = column l2\<rparr>\<rparr>]\<rparr>))))"

definition lexNL :: "Lexer \<Rightarrow> Lexer" where
  "lexNL l =
     l\<lparr>tokens := tokens l @ [\<lparr>Name = NL, Val = NL, Pos = \<lparr>row = line l, col = column l\<rparr>\<rparr>]\<rparr>"

text \<open>
  The loop of \<^verbatim>\<open>nextLine\<close>:
  \<^verbatim>\<open>for l.input[l.index] != '\n' && l.index < len(l.input)-1 { l.index++ }\<close>;
  the read of \<^verbatim>\<open>l.input[l.index]\<close> comes first and panics out of range.
\<close>

function nextLine_loop :: "Lexer \<Rightarrow> error + Lexer" where
  "nextLine_loop l =
     (if length (input l) \<le> index l then Inl IndexOutOfRange
      else if rune_of_byte (input l ! index l) \<noteq> 10 \<and> int (index l) < int (length (input l)) - 1
      then nextLine_loop (l\<lparr>index := index l + 1\<rparr>)
      else Inr l)"
  by pat_completeness auto
termination
  by (relation "measure (\<lambda>l. length (input l) - index l)") auto

declare nextLine_loop.simps [simp del]

definition nextLine :: "Lexer \<Rightarrow> error + Lexer" where
  "nextLine l = nextLine_loop (l\<lparr>line := line l + 1, column := 0, currentType := -1\<rparr>)"

text \<open>
  The two-character operators of \<^verbatim>\<open>lex\<close>:
  \<^verbatim>\<open>if nextChar, err := l.peek(); nextChar == '=' && err == nil { l.lexPunct(name2, val2); l.index++; l.column++ } else { l.lexPunct(name1, val1) }\<close>.
  The flag \<open>skip\<close> says whether the branch has the two increments: the case of \<^verbatim>\<open>'!'\<close>
  has none.
\<close>

definition lexOperator :: "TokenType \<Rightarrow> string \<Rightarrow> bool \<Rightarrow> TokenType \<Rightarrow> string \<Rightarrow> Lexer \<Rightarrow> error + Lexer" where
  "lexOperator name2 val2 skip name1 val1 l =
     (case peek l of
        Inl e \<Rightarrow> Inl e
      | Inr (nextChar, err) \<Rightarrow>
          if nextChar = 61 \<and> \<not> err then
            (let l1 = lexPunct name2 val2 l
             in Inr (if skip then l1\<lparr>index := index l1 + 1, column := column l1 + 1\<rparr> else l1))
          else Inr (lexPunct name1 val1 l))"

text \<open>The \<^verbatim>\<open>default\<close> branch of the switch.\<close>

definition lexDefault :: "Lexer \<Rightarrow> error + Lexer" where
  "lexDefault l =
     (if IsSpace (current l) then Inr (l\<lparr>currentType := -1\<rparr>)
      else if current l = 10 \<or> current l = 35 then nextLine l
      else if IsDigit (current l) then
        (if currentType l = TokenIdent \<or> currentType l = TokenKeyword
         then lexText (string_of_rune (current l)) l
         else lexInt l)
      else if IsLetter (current l) \<or> current l = 95 then lexText (string_of_rune (current l)) l
      else Inr (l\<lparr>tokens := tokens l @ [Token_zero\<lparr>Name := ILLEGAL, Val := ''nil''\<rparr>]\<rparr>))"

text \<open>
  One iteration of the loop of \<^verbatim>\<open>lex\<close>: read the current byte, switch on it, then
  \<^verbatim>\<open>l.index++; l.column++\<close>. The runes of the cases are written as their numbers:
  10 newline, 9 tab, 61 \<open>=\<close>, 60 \<open><\<close>, 62 \<open>>\<close>, 33 \<open>!\<close>, 58 \<open>:\<close>, 40 and 41 the parentheses,
  43 \<open>+\<close>, 45 \<open>-\<close>, 42 \<open>*\<close>, 47 \<open>/\<close>, 94 \<open>^\<close>, 37 \<open>%\<close>, 44 the comma, 34 the double quote
  (35 is \<open>#\<close> and 95 the underscore in the default branch).
\<close>

definition lex_body :: "Lexer \<Rightarrow> error + Lexer" where
  "lex_body l =
     (if length (input l) \<le> index l then Inl IndexOutOfRange
      else
        (let l0 = l\<lparr>current := rune_of_byte (input l ! index l)\<rparr>;
             c = current l0;
             r = (if c = 10 then nextLine (lexNL l0)
                  else if c = 9 then Inr (lexTab l0)
                  else if c = 61 then lexOperator EQ ''=='' True EQUALS ''='' l0
                  else if c = 60 then lexOperator LESSEQ ''<='' True LESS ''<'' l0
                  else if c = 62 then lexOperator GREATEQ ''>='' True GREAT ''>'' l0
                  else if c = 33 then lexOperator NOTEQ ''!='' False NOT_op ''!'' l0
                  else if c = 58 then Inr (lexPunct COLON '':'' l0)
                  else if c = 40 then Inr (lexPunct LEFTPAREN ''('' l0)
                  else if c = 41 then Inr (lexPunct RIGHTPAREN '')'' l0)
                  else if c = 43 then lexOperator ADDEQ ''+='' True ADD ''+'' l0
                  else if c = 45 then lexOperator SUBEQ ''-='' True SUB ''-'' l0
                  else if c = 42 then lexOperator MULTEQ ''*='' True MULT ''*'' l0
                  else if c = 47 then lexOperator DIVEQ ''/='' True DIV ''/'' l0
                  else if c = 94 then lexOperator POWEQ ''^='' True POW ''^'' l0
                  else if c = 37 then lexOperator MODEQ ''%='' True MOD ''%'' l0
                  else if c = 44 then Inr (lexPunct COMMA '','' l0)
                  else if c = 34 then lexString l0
                  else lexDefault l0)
         in case r of
              Inl e \<Rightarrow> Inl e
            | Inr l1 \<Rightarrow> Inr (l1\<lparr>index := index l1 + 1, column := column l1 + 1\<rparr>)))"

text \<open>No step of the lexer changes the input, and none moves the index back.\<close>

lemma lexString_loop_frame:
  "lexString_loop nxt l = Inr l' \<Longrightarrow> input l' = input l \<and> index l \<le> index l'"
proof (induction nxt l rule: lexString_loop.induct)
  case (1 nxt l)
  show ?case
  proof (cases "nxt \<noteq> 34")
    case False
    with "1.prems" show ?thesis by (simp add: lexString_loop.simps[of nxt l])
  next
    case True
    let ?l1 = "l\<lparr>index := index l + 1\<rparr>"
    from True "1.prems" obtain nxt1 err where pk: "peek ?l1 = Inr (nxt1, err)"
      by (cases "peek ?l1") (auto simp: lexString_loop.simps[of nxt l] Let_def)
    show ?thesis
    proof (cases err)
      case True
      with \<open>nxt \<noteq> 34\<close> pk "1.prems" show ?thesis
        by (auto simp: lexString_loop.simps[of nxt l] Let_def)
    next
      case False
      with \<open>nxt \<noteq> 34\<close> pk "1.prems" have "lexString_loop nxt1 ?l1 = Inr l'"
        by (simp add: lexString_loop.simps[of nxt l] Let_def)
      with "1.IH"[OF \<open>nxt \<noteq> 34\<close> refl pk refl False] show ?thesis by simp
    qed
  qed
qed

lemma lexInt_loop_frame:
  "lexInt_loop nxt l = Inr l' \<Longrightarrow> input l' = input l \<and> index l \<le> index l'"
proof (induction nxt l rule: lexInt_loop.induct)
  case (1 nxt l)
  show ?case
  proof (cases "IsDigit nxt")
    case False
    with "1.prems" show ?thesis by (simp add: lexInt_loop.simps[of nxt l])
  next
    case True
    let ?l1 = "l\<lparr>index := index l + 1\<rparr>"
    from True "1.prems" obtain nxt1 err where pk: "peek ?l1 = Inr (nxt1, err)"
      by (cases "peek ?l1") (auto simp: lexInt_loop.simps[of nxt l] Let_def)
    show ?thesis
    proof (cases err)
      case True
      with \<open>IsDigit nxt\<close> pk "1.prems" show ?thesis
        by (auto simp: lexInt_loop.simps[of nxt l] Let_def)
    next
      case False
      with \<open>IsDigit nxt\<close> pk "1.prems" have "lexInt_loop nxt1 ?l1 = Inr l'"
        by (simp add: lexInt_loop.simps[of nxt l] Let_def)
      with "1.IH"[OF \<open>IsDigit nxt\<close> refl pk refl False] show ?thesis by simp
    qed
  qed
qed

lemma nextLine_loop_frame:
  "nextLine_loop l = Inr l' \<Longrightarrow> input l' = input l \<and> index l \<le> index l'"
proof (induction l rule: nextLine_loop.induct)
  case (1 l)
  show ?case
  proof (cases "length (input l) \<le> index l")
    case True
    with "1.prems" show ?thesis by (simp add: nextLine_loop.simps[of l])
  next
    case False
    show ?thesis
    proof (cases "rune_of_byte (input l ! index l) \<noteq> 10 \<and> int (index l) < int (length (input l)) - 1")
      case True
      with False "1.prems" have "nextLine_loop (l\<lparr>index := index l + 1\<rparr>) = Inr l'"
        by (simp add: nextLine_loop.simps[of l])
      with "1.IH"[OF False True] show ?thesis by simp
    next
      case False
      with \<open>\<not> length (input l) \<le> index l\<close> "1.prems" show ?thesis
        by (auto simp: nextLine_loop.simps[of l])
    qed
  qed
qed

lemma nextLine_frame:
  "nextLine l = Inr l' \<Longrightarrow> input l' = input l \<and> index l \<le> index l'"
  using nextLine_loop_frame[of "l\<lparr>line := line l + 1, column := 0, currentType := -1\<rparr>" l']
  by (simp add: nextLine_def)

lemma lexText_frame:
  "lexText v l = Inr l' \<Longrightarrow> input l' = input l \<and> index l \<le> index l'"
  by (auto simp: lexText_def Let_def split: if_splits)

lemma lexString_frame:
  "lexString l = Inr l' \<Longrightarrow> input l' = input l \<and> index l \<le> index l'"
  by (auto simp: lexString_def Let_def split: sum.splits if_splits prod.splits
           dest!: lexString_loop_frame)

lemma lexInt_frame:
  "lexInt l = Inr l' \<Longrightarrow> input l' = input l \<and> index l \<le> index l'"
  by (auto simp: lexInt_def Let_def split: sum.splits if_splits prod.splits
           dest!: lexInt_loop_frame)

lemma lexOperator_frame:
  "lexOperator n2 v2 b n1 v1 l = Inr l' \<Longrightarrow> input l' = input l \<and> index l \<le> index l'"
  by (auto simp: lexOperator_def lexPunct_def Let_def split: sum.splits if_splits prod.splits)

lemma lexDefault_frame:
  "lexDefault l = Inr l' \<Longrightarrow> input l' = input l \<and> index l \<le> index l'"
  by (auto simp: lexDefault_def split: if_splits
           dest: nextLine_frame lexText_frame lexInt_frame)

lemma lex_body_frame:
  "lex_body l = Inr l' \<Longrightarrow> input l' = input l \<and> index l < index l'"
  unfolding lex_body_def Let_def
  by (auto simp: lexNL_def lexTab_def lexPunct_def split: if_splits sum.splits
           dest!: nextLine_frame lexOperator_frame lexString_frame lexDefault_frame)

text \<open>
  The loop of \<^verbatim>\<open>lex\<close>, \<^verbatim>\<open>for ok := true; ok; ok = l.index < len(l.input)\<close>: the body runs once
  before the condition is read for the first time.
\<close>

function lex :: "Lexer \<Rightarrow> error + Lexer" where
  "lex l =
     (case lex_body l of
        Inl e \<Rightarrow> Inl e
      | Inr l1 \<Rightarrow> if index l1 < length (input l1) then lex l1 else Inr l1)"
  by pat_completeness auto
termination
proof (relation "measure (\<lambda>l. length (input l) - index l)")
  show "wf (measure (\<lambda>l. length (input l) - index l))" by simp
next
  fix l l1
  assume "lex_body l = Inr l1" and "index l1 < length (input l1)"
  then show "(l1, l) \<in> measure (\<lambda>l. length (input l) - index l)"
    using lex_body_frame[of l l1] by auto
qed

declare lex.simps [simp del]

text \<open>
  \<^verbatim>\<open>StartLex\<close> allocates its \<^verbatim>\<open>Lexer\<close> from the input on every call, and the package declares
  constants only (the keyword list is a local of \<^verbatim>\<open>lexText\<close>): a run reads nothing but the
  string, so it is a function of the string.
\<close>

definition StartLex :: "string \<Rightarrow> error + Token list" where
  "StartLex inp =
     (let l = \<lparr>index = 0, input = inp, line = 1, column = 0, current = 32, currentType = 0,
               tokens = []\<rparr>
      in case lex l of
           Inl e \<Rightarrow> Inl e
         | Inr l1 \<Rightarrow>
             (let eof = \<lparr>Name = EOF, Val = [], Pos = \<lparr>row = line l1 + 1, col = 0\<rparr>\<rparr>
              in Inr (tokens l1 @ [eof])))"

section \<open>Go library functions used by the parser\<close>

text \<open>
  \<^verbatim>\<open>strings.ReplaceAll(input, "    ", "\t")\<close>, the only call of \<^verbatim>\<open>ReplaceAll\<close>: from left to
  right, every run of four blanks that does not overlap an earlier one becomes a tab.
\<close>

fun formatted :: "string \<Rightarrow> string" where
  "formatted (a # b # c # d # rest) =
     (if a = CHR '' '' \<and> b = CHR '' '' \<and> c = CHR '' '' \<and> d = CHR '' ''
      then CHR 0x09 # formatted rest
      else a # formatted (b # c # d # rest))"
| "formatted s = s"

text \<open>\<^verbatim>\<open>strconv.Itoa\<close> and the verb \<^verbatim>\<open>%d\<close>: the decimal digits, after a minus sign below zero.\<close>

function uitoa :: "nat \<Rightarrow> string" where
  "uitoa n = (if n < 10 then [char_of (48 + n)] else uitoa (n div 10) @ [char_of (48 + n mod 10)])"
  by pat_completeness auto
termination
  by (relation "measure (\<lambda>n. n)") auto

declare uitoa.simps [simp del]

definition Itoa :: "int \<Rightarrow> string" where
  "Itoa i = (if i < 0 then CHR ''-'' # uitoa (nat (- i)) else uitoa (nat i))"

text \<open>
  \<^verbatim>\<open>strconv.ParseInt(s, 0, 64)\<close>, after the source of the Go standard library. With base 0
  the base comes from the prefix of the text: \<open>0b\<close>, \<open>0o\<close>, \<open>0x\<close>, a bare leading \<open>0\<close> for
  octal, ten otherwise, and underscores may separate digits. The accumulator is a
  \<^verbatim>\<open>uint64\<close>: the sum is taken modulo \<open>2 ^ 64\<close>, after the test that keeps the product below it.
\<close>

datatype NumError = ErrSyntax | ErrRange

definition lower :: "nat \<Rightarrow> nat" where
  "lower c = or c 32"

definition maxUint64 :: nat where
  "maxUint64 = 2 ^ 64 - 1"

text \<open>The digit loop of \<^verbatim>\<open>ParseUint\<close>; the result holds the flag \<^verbatim>\<open>underscores\<close> and the number.\<close>

fun ParseUint_loop :: "nat \<Rightarrow> bool \<Rightarrow> nat \<Rightarrow> string \<Rightarrow> NumError + (bool \<times> nat)" where
  "ParseUint_loop base underscores n [] = Inr (underscores, n)"
| "ParseUint_loop base underscores n (ch # cs) =
     (let c = of_char ch :: nat
      in if c = 95 then ParseUint_loop base True n cs
         else if \<not> ((48 \<le> c \<and> c \<le> 57) \<or> (97 \<le> lower c \<and> lower c \<le> 122)) then Inl ErrSyntax
         else
           (let d = (if 48 \<le> c \<and> c \<le> 57 then c - 48 else lower c - 97 + 10)
            in if d \<ge> base then Inl ErrSyntax
               else if n \<ge> maxUint64 div base + 1 then Inl ErrRange
               else
                 (let n0 = n * base;
                      n1 = (n0 + d) mod 2 ^ 64
                  in if n1 < n0 \<or> n1 > maxUint64 then Inl ErrRange
                     else ParseUint_loop base underscores n1 cs)))"

text \<open>
  \<^verbatim>\<open>underscoreOK\<close>: an underscore stands only between digits, or between a base prefix and a
  digit. The state \<open>saw\<close> is the last character class seen: \<open>0\<close> the start, \<open>1\<close> a digit or
  the prefix, \<open>2\<close> an underscore, \<open>3\<close> anything else.
\<close>

fun underscoreOK_loop :: "bool \<Rightarrow> nat \<Rightarrow> string \<Rightarrow> bool" where
  "underscoreOK_loop hex saw [] = (saw \<noteq> 2)"
| "underscoreOK_loop hex saw (ch # cs) =
     (let c = of_char ch :: nat
      in if (48 \<le> c \<and> c \<le> 57) \<or> (hex \<and> 97 \<le> lower c \<and> lower c \<le> 102)
         then underscoreOK_loop hex 1 cs
         else if c = 95 then (if saw \<noteq> 1 then False else underscoreOK_loop hex 2 cs)
         else if saw = 2 then False
         else underscoreOK_loop hex 3 cs)"

definition hasBasePrefix :: "string \<Rightarrow> bool" where
  "hasBasePrefix s =
     (length s \<ge> 2 \<and> s ! 0 = CHR ''0'' \<and>
      (lower (of_char (s ! 1)) = 98 \<or> lower (of_char (s ! 1)) = 111 \<or> lower (of_char (s ! 1)) = 120))"

definition underscoreOK :: "string \<Rightarrow> bool" where
  "underscoreOK s0 =
     (let s = (if length s0 \<ge> 1 \<and> (s0 ! 0 = CHR ''-'' \<or> s0 ! 0 = CHR ''+'') then tl s0 else s0)
      in if hasBasePrefix s
         then underscoreOK_loop (lower (of_char (s ! 1)) = 120) 1 (drop 2 s)
         else underscoreOK_loop False 0 s)"

definition ParseUint :: "string \<Rightarrow> NumError + nat" where
  "ParseUint s0 =
     (if s0 = [] then Inl ErrSyntax
      else
        (let (base, s) =
               (if s0 ! 0 = CHR ''0'' then
                  (if length s0 \<ge> 3 \<and> lower (of_char (s0 ! 1)) = 98 then (2, drop 2 s0)
                   else if length s0 \<ge> 3 \<and> lower (of_char (s0 ! 1)) = 111 then (8, drop 2 s0)
                   else if length s0 \<ge> 3 \<and> lower (of_char (s0 ! 1)) = 120 then (16, drop 2 s0)
                   else (8, drop 1 s0))
                else (10, s0))
         in case ParseUint_loop base False 0 s of
              Inl e \<Rightarrow> Inl e
            | Inr (underscores, n) \<Rightarrow>
                if underscores \<and> \<not> underscoreOK s0 then Inl ErrSyntax else Inr n))"

definition ParseInt :: "string \<Rightarrow> NumError + int" where
  "ParseInt s0 =
     (if s0 = [] then Inl ErrSyntax
      else
        (let neg = (s0 ! 0 = CHR ''-'');
             s = (if s0 ! 0 = CHR ''+'' \<or> s0 ! 0 = CHR ''-'' then tl s0 else s0)
         in case ParseUint s of
              Inl e \<Rightarrow> Inl e
            | Inr un \<Rightarrow>
                if \<not> neg \<and> un \<ge> 2 ^ 63 then Inl ErrRange
                else if neg \<and> un > 2 ^ 63 then Inl ErrRange
                else Inr (if neg then - int un else int un)))"

section \<open>The syntax tree (ast/ast.go)\<close>

text \<open>
  An interface value (\<^verbatim>\<open>Expr\<close>, \<^verbatim>\<open>Stmt\<close>) or a pointer that may be \<^verbatim>\<open>nil\<close> is an option.
  \<open>VarStmt_nil\<close> is the \<^verbatim>\<open>nil\<close> pointer of type \<^verbatim>\<open>*VarStmt\<close> held in a \<^verbatim>\<open>Stmt\<close>: such an
  interface value is not \<^verbatim>\<open>nil\<close>. The \<^verbatim>\<open>int64\<close> of an integer literal is an \<^typ>\<open>int\<close>:
  \<^verbatim>\<open>ParseInt\<close> only returns values of that range.
\<close>

datatype Identifier = Identifier Token string

datatype Expr =
    IdentifierExpr Identifier
  | IntLiteral Token int
  | StrLiteral Token string
  | PrefixExpr Token string "Expr option"
  | InfixExpr Token "Expr option" string "Expr option"
  | IfExpr Token "Expr option" "BlockStmt option" "BlockStmt option"
  | CallExpr Token "Expr option" "Expr option list"
  | WhileExpr Token "Expr option" "BlockStmt option"
and Stmt =
    VarStmt Token Identifier "Expr option"
  | ExprStmt Token "Expr option"
  | VarStmt_nil
and BlockStmt =
    BlockStmt Token "Stmt list"

text \<open>\<^verbatim>\<open>(*IntLiteral).String\<close>: \<^verbatim>\<open>strconv.Itoa(int(il.Value))\<close>, with an \<^verbatim>\<open>int\<close> of 64 bits.\<close>

definition IntLiteral_String :: "int \<Rightarrow> string" where
  "IntLiteral_String v = Itoa v"

section \<open>The parser (parser/parser.go)\<close>

abbreviation (input) LOWEST :: int where "LOWEST \<equiv> 1"
abbreviation (input) EQUALS_prec :: int where "EQUALS_prec \<equiv> 2"
abbreviation (input) GTLT :: int where "GTLT \<equiv> 3"
abbreviation (input) SUM_prec :: int where "SUM_prec \<equiv> 4"
abbreviation (input) PRODUCT :: int where "PRODUCT \<equiv> 5"
abbreviation (input) PREFIX :: int where "PREFIX \<equiv> 6"
abbreviation (input) CALL :: int where "CALL \<equiv> 7"
abbreviation (input) AND_prec :: int where "AND_prec \<equiv> 8"

definition precedence :: "TokenType \<rightharpoonup> int" where
  "precedence =
     [EQ \<mapsto> EQUALS_prec, NOTEQ \<mapsto> EQUALS_prec, LESS \<mapsto> GTLT, LESSEQ \<mapsto> GTLT, GREAT \<mapsto> GTLT,
      GREATEQ \<mapsto> GTLT, AND_kw \<mapsto> GTLT, OR_kw \<mapsto> GTLT, ADD \<mapsto> SUM_prec, ADDEQ \<mapsto> SUM_prec, SUB \<mapsto> SUM_prec,
      SUBEQ \<mapsto> SUM_prec, DIV \<mapsto> PRODUCT, DIVEQ \<mapsto> PRODUCT, MULT \<mapsto> PRODUCT, MULTEQ \<mapsto> PRODUCT,
      LEFTPAREN \<mapsto> CALL]"

text \<open>The method values that \<^verbatim>\<open>registerFixes\<close> stores in the two maps, by name.\<close>

datatype prefixParseFn =
  ParseIdent | ParseIntLiteral | ParseStrLiteral | ParsePrefixExpr | ParseGroupingExpr |
  ParseIfExpr | ParseWhileExpr

datatype infixParseFn = ParseInfixExpr | ParseCallExpr

record Parser =
  ptokens :: "Token list"
  pindex :: nat
  statements :: "Stmt list"
  errors :: "string list"
  prefixParseFns :: "TokenType \<rightharpoonup> prefixParseFn"
  infixParseFns :: "TokenType \<rightharpoonup> infixParseFn"
  indentLevel :: int

text \<open>
  A call of a parser method ends in one of three ways: it returns a value and leaves the
  parser in a new state, it panics, or the model runs out of fuel (every loop and every
  call among the recursive methods takes one unit of fuel).
\<close>

datatype 'a outcome = OutOfFuel | Panic error | Ret 'a Parser

definition bind :: "'a outcome \<Rightarrow> ('a \<Rightarrow> Parser \<Rightarrow> 'b outcome) \<Rightarrow> 'b outcome" where
  "bind m f = (case m of OutOfFuel \<Rightarrow> OutOfFuel | Panic e \<Rightarrow> Panic e | Ret x p \<Rightarrow> f x p)"

definition registerPrefix :: "TokenType \<Rightarrow> prefixParseFn \<Rightarrow> Parser \<Rightarrow> Parser" where
  "registerPrefix t fn p = p\<lparr>prefixParseFns := (prefixParseFns p)(t \<mapsto> fn)\<rparr>"

definition registerInfix :: "TokenType \<Rightarrow> infixParseFn \<Rightarrow> Parser \<Rightarrow> Parser" where
  "registerInfix t fn p = p\<lparr>infixParseFns := (infixParseFns p)(t \<mapsto> fn)\<rparr>"

definition registerFixes :: "Parser \<Rightarrow> Parser" where
  "registerFixes p0 =
     (let p = p0\<lparr>prefixParseFns := Map.empty\<rparr>;
          p = registerPrefix IDENT ParseIdent p;
          p = registerPrefix NUM ParseIntLiteral p;
          p = registerPrefix STRING ParseStrLiteral p;
          p = registerPrefix SUB ParsePrefixExpr p;
          p = registerPrefix LEFTPAREN ParseGroupingExpr p;
          p = registerPrefix IF ParseIfExpr p;
          p = registerPrefix WHILE ParseWhileExpr p;
          p = registerPrefix STR_kw ParseStrLiteral p;
          p = registerPrefix INT_kw ParseIntLiteral p;
          p = p\<lparr>infixParseFns := Map.empty\<rparr>;
          p = registerInfix EQ ParseInfixExpr p;
          p = registerInfix NOTEQ ParseInfixExpr p;
          p = registerInfix ADD ParseInfixExpr p;
          p = registerInfix ADDEQ ParseInfixExpr p;
          p = registerInfix SUB ParseInfixExpr p;
          p = registerInfix SUBEQ ParseInfixExpr p;
          p = registerInfix DIV ParseInfixExpr p;
          p = registerInfix DIVEQ ParseInfixExpr p;
          p = registerInfix MULT ParseInfixExpr p;
          p = registerInfix MULTEQ ParseInfixExpr p;
          p = registerInfix GREAT ParseInfixExpr p;
          p = registerInfix GREATEQ ParseInfixExpr p;
          p = registerInfix LESSEQ ParseInfixExpr p;
          p = registerInfix AND_kw ParseInfixExpr p;
          p = registerInfix LEFTPAREN ParseCallExpr p
      in p)"

subsection \<open>The cursor\<close>

definition Parser_current :: "Parser \<Rightarrow> Token outcome" where
  "Parser_current p =
     (if pindex p < length (ptokens p) then Ret (ptokens p ! pindex p) p
      else Panic IndexOutOfRange)"

definition Parser_end :: "Parser \<Rightarrow> bool outcome" where
  "Parser_end p = bind (Parser_current p) (\<lambda>token p. Ret (Name token = EOF) p)"

definition Parser_peek :: "Parser \<Rightarrow> Token outcome" where
  "Parser_peek p =
     bind (Parser_end p) (\<lambda>e p.
       if \<not> e then
         (if pindex p + 1 < length (ptokens p) then Ret (ptokens p ! (pindex p + 1)) p
          else Panic IndexOutOfRange)
       else Ret Token_zero p)"

definition Parser_next :: "Parser \<Rightarrow> unit outcome" where
  "Parser_next p =
     bind (Parser_end p) (\<lambda>e p.
       if \<not> e then Ret () (p\<lparr>pindex := pindex p + 1\<rparr>) else Ret () p)"

definition checkCurrent :: "TokenType \<Rightarrow> Parser \<Rightarrow> bool outcome" where
  "checkCurrent t p =
     bind (Parser_end p) (\<lambda>e p.
       if e then Ret False p
       else bind (Parser_current p) (\<lambda>tok p. Ret (Name tok = t) p))"

definition checkPeek :: "TokenType \<Rightarrow> Parser \<Rightarrow> bool outcome" where
  "checkPeek t p =
     bind (Parser_end p) (\<lambda>e p.
       if e then Ret False p
       else bind (Parser_peek p) (\<lambda>tok p. Ret (Name tok = t) p))"

definition GetPosition :: "Token \<Rightarrow> string" where
  "GetPosition t = ''line '' @ Itoa (row (Pos t)) @ '', column '' @ Itoa (col (Pos t))"

definition peekError :: "TokenType \<Rightarrow> Parser \<Rightarrow> unit outcome" where
  "peekError t p =
     bind (Parser_peek p) (\<lambda>tok p.
       Ret () (p\<lparr>errors := errors p @
                 [''error at '' @ GetPosition tok @ '': expected next token to be '' @ t @
                  '', got '' @ Name tok @ '' instead'']\<rparr>))"

definition expectCurrent :: "TokenType \<Rightarrow> Parser \<Rightarrow> bool outcome" where
  "expectCurrent t p =
     bind (checkCurrent t p) (\<lambda>b p.
       if b then bind (Parser_next p) (\<lambda>_ p. Ret True p) else Ret False p)"

definition expectPeek :: "TokenType \<Rightarrow> Parser \<Rightarrow> bool outcome" where
  "expectPeek t p =
     bind (checkPeek t p) (\<lambda>b p.
       if b then bind (Parser_next p) (\<lambda>_ p. Ret True p)
       else bind (peekError t p) (\<lambda>_ p. Ret False p))"

definition currentPrec :: "Parser \<Rightarrow> int outcome" where
  "currentPrec p =
     bind (Parser_current p) (\<lambda>tok p.
       Ret (case precedence (Name tok) of Some prec \<Rightarrow> prec | None \<Rightarrow> LOWEST) p)"

definition peekPrec :: "Parser \<Rightarrow> int outcome" where
  "peekPrec p =
     bind (Parser_peek p) (\<lambda>tok p.
       Ret (case precedence (Name tok) of Some prec \<Rightarrow> prec | None \<Rightarrow> LOWEST) p)"

subsection \<open>The handlers that do not recurse\<close>

definition parseIdent :: "Parser \<Rightarrow> Expr option outcome" where
  "parseIdent p =
     bind (Parser_current p) (\<lambda>tok p. Ret (Some (IdentifierExpr (Identifier tok (Val tok)))) p)"

text \<open>
  The message of \<^verbatim>\<open>parseIntLiteral\<close> prints the text with \<^verbatim>\<open>%q\<close>: between double quotes
  (the texts of the tokens that reach it hold digits, letters and underscores, which the
  verb does not escape).
\<close>

definition parseIntLiteral :: "Parser \<Rightarrow> Expr option outcome" where
  "parseIntLiteral p =
     bind (Parser_current p) (\<lambda>tok p.
       case ParseInt (Val tok) of
         Inl e \<Rightarrow>
           Ret None (p\<lparr>errors := errors p @
                      [''could not parse '' @ [CHR 0x22] @ Val tok @ [CHR 0x22] @ '' as int'']\<rparr>)
       | Inr v \<Rightarrow> Ret (Some (IntLiteral tok v)) p)"

definition parseStrLiteral :: "Parser \<Rightarrow> Expr option outcome" where
  "parseStrLiteral p =
     bind (Parser_current p) (\<lambda>tok p. Ret (Some (StrLiteral tok (Val tok))) p)"

subsection \<open>The recursive methods\<close>

text \<open>
  The methods of the parser call each other, and none has an evident bound on its calls,
  so the model gives them fuel. A value of the record \<open>calls\<close> holds every method (and, under
  the name of the method with \<open>_loop\<close>, \<open>_indents\<close> or \<open>_skip\<close>, every loop) as it behaves with
  some amount of fuel; \<open>methods n\<close> below is that record for \<open>n\<close> units. The body of each
  method is a definition named after it with \<open>_body\<close>, which makes its calls through the
  record \<open>m\<close> of the methods with one unit less. \<^verbatim>\<open>parseStmt\<close> returns \<open>None\<close> for the \<^verbatim>\<open>nil\<close>
  statement of a newline.
\<close>

record calls =
  parseStmt :: "Parser \<Rightarrow> Stmt option outcome"
  parseVarStmt :: "Parser \<Rightarrow> Stmt outcome"
  parseVarStmt_loop :: "Parser \<Rightarrow> unit outcome"
  parseExprStmt :: "Parser \<Rightarrow> Stmt outcome"
  parseExpr :: "int \<Rightarrow> Parser \<Rightarrow> Expr option outcome"
  parseExpr_loop :: "int \<Rightarrow> Expr option \<Rightarrow> Parser \<Rightarrow> Expr option outcome"
  parsePrefixExpr :: "Parser \<Rightarrow> Expr option outcome"
  parseInfixExpr :: "Expr option \<Rightarrow> Parser \<Rightarrow> Expr option outcome"
  parseGroupingExpr :: "Parser \<Rightarrow> Expr option outcome"
  parseIfExpr :: "Parser \<Rightarrow> Expr option outcome"
  parseBlockStmt :: "Parser \<Rightarrow> BlockStmt outcome"
  parseBlockStmt_indents :: "Parser \<Rightarrow> unit outcome"
  parseBlockStmt_loop :: "Stmt list \<Rightarrow> Parser \<Rightarrow> Stmt list outcome"
  parseBlockStmt_skip :: "Parser \<Rightarrow> unit outcome"
  parseCallExpr :: "Expr option \<Rightarrow> Parser \<Rightarrow> Expr option outcome"
  parseCallArgs :: "Parser \<Rightarrow> Expr option list outcome"
  parseCallArgs_loop :: "Expr option list \<Rightarrow> Parser \<Rightarrow> Expr option list outcome"
  parseWhileExpr :: "Parser \<Rightarrow> Expr option outcome"

definition parseStmt_body :: "calls \<Rightarrow> Parser \<Rightarrow> Stmt option outcome" where
  "parseStmt_body m p =
     bind (Parser_current p) (\<lambda>tok p.
       if Name tok = IDENT then
         bind (Parser_peek p) (\<lambda>pk p.
           if Name pk = EQUALS then bind (parseVarStmt m p) (\<lambda>stmt p. Ret (Some stmt) p)
           else bind (parseExprStmt m p) (\<lambda>stmt p. Ret (Some stmt) p))
       else if Name tok = NL then Ret None p
       else bind (parseExprStmt m p) (\<lambda>stmt p. Ret (Some stmt) p))"

definition parseVarStmt_body :: "calls \<Rightarrow> Parser \<Rightarrow> Stmt outcome" where
  "parseVarStmt_body m p =
     bind (Parser_current p) (\<lambda>tok p.
       bind (expectPeek EQUALS p) (\<lambda>ok p.
         if \<not> ok then Ret VarStmt_nil p
         else
           bind (Parser_next p) (\<lambda>_ p.
             bind (parseExpr m LOWEST p) (\<lambda>v p.
               bind (parseVarStmt_loop m p) (\<lambda>_ p.
                 Ret (VarStmt tok (Identifier tok (Val tok)) v) p)))))"

text \<open>In \<^verbatim>\<open>parseVarStmt\<close>: \<^verbatim>\<open>for !p.checkCurrent(lexer.NL) && !p.end() { p.next() }\<close>.\<close>

definition parseVarStmt_loop_body :: "calls \<Rightarrow> Parser \<Rightarrow> unit outcome" where
  "parseVarStmt_loop_body m p =
     bind (checkCurrent NL p) (\<lambda>b p.
       if b then Ret () p
       else bind (Parser_end p) (\<lambda>e p.
         if e then Ret () p
         else bind (Parser_next p) (\<lambda>_ p. parseVarStmt_loop m p)))"

definition parseExprStmt_body :: "calls \<Rightarrow> Parser \<Rightarrow> Stmt outcome" where
  "parseExprStmt_body m p =
     bind (Parser_current p) (\<lambda>tok p.
       bind (parseExpr m LOWEST p) (\<lambda>e p. Ret (ExprStmt tok e) p))"

definition parseExpr_body :: "calls \<Rightarrow> int \<Rightarrow> Parser \<Rightarrow> Expr option outcome" where
  "parseExpr_body m prec p =
     bind (Parser_current p) (\<lambda>tok p.
       case prefixParseFns p (Name tok) of
         None \<Rightarrow> Ret None p
       | Some pre \<Rightarrow>
           bind (case pre of
                   ParseIdent \<Rightarrow> parseIdent p
                 | ParseIntLiteral \<Rightarrow> parseIntLiteral p
                 | ParseStrLiteral \<Rightarrow> parseStrLiteral p
                 | ParsePrefixExpr \<Rightarrow> parsePrefixExpr m p
                 | ParseGroupingExpr \<Rightarrow> parseGroupingExpr m p
                 | ParseIfExpr \<Rightarrow> parseIfExpr m p
                 | ParseWhileExpr \<Rightarrow> parseWhileExpr m p)
                (\<lambda>left p. parseExpr_loop m prec left p))"

text \<open>
  In \<^verbatim>\<open>parseExpr\<close>: \<^verbatim>\<open>for !p.checkCurrent(lexer.NL) && precedence < p.peekPrec() { in := p.infixParseFns[p.peek().Name]; if in == nil { return left }; p.next(); left = in(left) }\<close>.
\<close>

definition parseExpr_loop_body :: "calls \<Rightarrow> int \<Rightarrow> Expr option \<Rightarrow> Parser \<Rightarrow> Expr option outcome" where
  "parseExpr_loop_body m prec left p =
     bind (checkCurrent NL p) (\<lambda>isNL p.
       if isNL then Ret left p
       else
         bind (peekPrec p) (\<lambda>pp p.
           if \<not> prec < pp then Ret left p
           else
             bind (Parser_peek p) (\<lambda>pk p.
               case infixParseFns p (Name pk) of
                 None \<Rightarrow> Ret left p
               | Some infx \<Rightarrow>
                   bind (Parser_next p) (\<lambda>_ p.
                     bind (case infx of
                             ParseInfixExpr \<Rightarrow> parseInfixExpr m left p
                           | ParseCallExpr \<Rightarrow> parseCallExpr m left p)
                          (\<lambda>left1 p. parseExpr_loop m prec left1 p)))))"

definition parsePrefixExpr_body :: "calls \<Rightarrow> Parser \<Rightarrow> Expr option outcome" where
  "parsePrefixExpr_body m p =
     bind (Parser_current p) (\<lambda>tok p.
       bind (Parser_next p) (\<lambda>_ p.
         bind (parseExpr m PREFIX p) (\<lambda>e p. Ret (Some (PrefixExpr tok (Val tok) e)) p)))"

definition parseInfixExpr_body :: "calls \<Rightarrow> Expr option \<Rightarrow> Parser \<Rightarrow> Expr option outcome" where
  "parseInfixExpr_body m l p =
     bind (Parser_current p) (\<lambda>tok p.
       bind (currentPrec p) (\<lambda>prec p.
         bind (Parser_next p) (\<lambda>_ p.
           bind (parseExpr m prec p) (\<lambda>r p. Ret (Some (InfixExpr tok l (Val tok) r)) p))))"

definition parseGroupingExpr_body :: "calls \<Rightarrow> Parser \<Rightarrow> Expr option outcome" where
  "parseGroupingExpr_body m p =
     bind (Parser_next p) (\<lambda>_ p.
       bind (parseExpr m LOWEST p) (\<lambda>e p.
         bind (expectPeek RIGHTPAREN p) (\<lambda>ok p. if \<not> ok then Ret None p else Ret e p)))"

definition parseIfExpr_body :: "calls \<Rightarrow> Parser \<Rightarrow> Expr option outcome" where
  "parseIfExpr_body m p =
     bind (Parser_current p) (\<lambda>tok p.
       bind (Parser_next p) (\<lambda>_ p.
         bind (parseExpr m LOWEST p) (\<lambda>cond p.
           bind (expectPeek COLON p) (\<lambda>ok p.
             if \<not> ok then Ret None p
             else
               bind (expectPeek NL p) (\<lambda>ok p.
                 if \<not> ok then Ret None p
                 else
                   bind (parseBlockStmt m p) (\<lambda>pass p.
                     bind (expectCurrent ELSE p) (\<lambda>ok p.
                       if \<not> ok then Ret (Some (IfExpr tok cond (Some pass) None)) p
                       else
                         bind (parseBlockStmt m p) (\<lambda>fail p.
                           Ret (Some (IfExpr tok cond (Some pass) (Some fail))) p))))))))"

definition parseBlockStmt_body :: "calls \<Rightarrow> Parser \<Rightarrow> BlockStmt outcome" where
  "parseBlockStmt_body m p =
     bind (Parser_next p) (\<lambda>_ p.
       bind (parseBlockStmt_indents m p) (\<lambda>_ p.
         bind (Parser_next p) (\<lambda>_ p.
           bind (Parser_current (p\<lparr>indentLevel := indentLevel p + 1\<rparr>)) (\<lambda>tok p.
             bind (parseBlockStmt_loop m [] p) (\<lambda>stmts p.
               Ret (BlockStmt tok stmts) (p\<lparr>indentLevel := indentLevel p - 1\<rparr>))))))"

text \<open>In \<^verbatim>\<open>parseBlockStmt\<close>: \<^verbatim>\<open>for p.checkPeek(lexer.INDENT) { p.next() }\<close>.\<close>

definition parseBlockStmt_indents_body :: "calls \<Rightarrow> Parser \<Rightarrow> unit outcome" where
  "parseBlockStmt_indents_body m p =
     bind (checkPeek INDENT p) (\<lambda>b p.
       if b then bind (Parser_next p) (\<lambda>_ p. parseBlockStmt_indents m p) else Ret () p)"

text \<open>
  In \<^verbatim>\<open>parseBlockStmt\<close>: \<^verbatim>\<open>for 4*p.indentLevel <= p.current().GetCol() && !p.end() { stmt := p.parseStmt(); if stmt != nil { b.Stmts = append(b.Stmts, stmt) }; p.next(); ... }\<close>.
\<close>

definition parseBlockStmt_loop_body :: "calls \<Rightarrow> Stmt list \<Rightarrow> Parser \<Rightarrow> Stmt list outcome" where
  "parseBlockStmt_loop_body m stmts p =
     bind (Parser_current p) (\<lambda>tok p.
       if \<not> 4 * indentLevel p \<le> GetCol tok then Ret stmts p
       else
         bind (Parser_end p) (\<lambda>e p.
           if e then Ret stmts p
           else
             bind (parseStmt m p) (\<lambda>stmt p.
               bind (Parser_next p) (\<lambda>_ p.
                 bind (parseBlockStmt_skip m p) (\<lambda>_ p.
                   parseBlockStmt_loop m
                     (case stmt of None \<Rightarrow> stmts | Some st \<Rightarrow> stmts @ [st]) p)))))"

text \<open>In \<^verbatim>\<open>parseBlockStmt\<close>: \<^verbatim>\<open>for p.checkCurrent(lexer.NL) || p.checkCurrent(lexer.INDENT) { p.next() }\<close>.\<close>

definition parseBlockStmt_skip_body :: "calls \<Rightarrow> Parser \<Rightarrow> unit outcome" where
  "parseBlockStmt_skip_body m p =
     bind (checkCurrent NL p) (\<lambda>b1 p.
       if b1 then bind (Parser_next p) (\<lambda>_ p. parseBlockStmt_skip m p)
       else bind (checkCurrent INDENT p) (\<lambda>b2 p.
         if b2 then bind (Parser_next p) (\<lambda>_ p. parseBlockStmt_skip m p) else Ret () p))"

definition parseCallExpr_body :: "calls \<Rightarrow> Expr option \<Rightarrow> Parser \<Rightarrow> Expr option outcome" where
  "parseCallExpr_body m fn p =
     bind (Parser_current p) (\<lambda>tok p.
       bind (parseCallArgs m p) (\<lambda>args p. Ret (Some (CallExpr tok fn args)) p))"

definition parseCallArgs_body :: "calls \<Rightarrow> Parser \<Rightarrow> Expr option list outcome" where
  "parseCallArgs_body m p =
     bind (checkPeek RIGHTPAREN p) (\<lambda>b p.
       if b then bind (Parser_next p) (\<lambda>_ p. Ret [] p)
       else
         bind (Parser_next p) (\<lambda>_ p.
           bind (parseExpr m LOWEST p) (\<lambda>a p.
             bind (parseCallArgs_loop m [a] p) (\<lambda>args p.
               bind (expectPeek RIGHTPAREN p) (\<lambda>ok p.
                 if \<not> ok then Ret [] p else Ret args p)))))"

text \<open>
  In \<^verbatim>\<open>parseCallArgs\<close>: \<^verbatim>\<open>for p.checkPeek(lexer.COMMA) { p.next(); p.next(); args = append(args, p.parseExpr(LOWEST)) }\<close>.
\<close>

definition parseCallArgs_loop_body :: "calls \<Rightarrow> Expr option list \<Rightarrow> Parser \<Rightarrow> Expr option list outcome" where
  "parseCallArgs_loop_body m args p =
     bind (checkPeek COMMA p) (\<lambda>b p.
       if \<not> b then Ret args p
       else
         bind (Parser_next p) (\<lambda>_ p.
           bind (Parser_next p) (\<lambda>_ p.
             bind (parseExpr m LOWEST p) (\<lambda>a p. parseCallArgs_loop m (args @ [a]) p))))"

definition parseWhileExpr_body :: "calls \<Rightarrow> Parser \<Rightarrow> Expr option outcome" where
  "parseWhileExpr_body m p =
     bind (Parser_current p) (\<lambda>tok p.
       bind (Parser_next p) (\<lambda>_ p.
         bind (parseExpr m LOWEST p) (\<lambda>cond p.
           bind (expectPeek COLON p) (\<lambda>ok p.
             if \<not> ok then Ret None p
             else
               bind (expectPeek NL p) (\<lambda>ok p.
                 if \<not> ok then Ret None p
                 else
                   bind (parseBlockStmt m p) (\<lambda>body p.
                     Ret (Some (WhileExpr tok cond (Some body))) p))))))"

text \<open>The methods with \<open>n\<close> units of fuel: none returns with no fuel left.\<close>

primrec methods :: "nat \<Rightarrow> calls" where
  "methods 0 =
     \<lparr>parseStmt = \<lambda>p. OutOfFuel,
      parseVarStmt = \<lambda>p. OutOfFuel,
      parseVarStmt_loop = \<lambda>p. OutOfFuel,
      parseExprStmt = \<lambda>p. OutOfFuel,
      parseExpr = \<lambda>prec p. OutOfFuel,
      parseExpr_loop = \<lambda>prec left p. OutOfFuel,
      parsePrefixExpr = \<lambda>p. OutOfFuel,
      parseInfixExpr = \<lambda>l p. OutOfFuel,
      parseGroupingExpr = \<lambda>p. OutOfFuel,
      parseIfExpr = \<lambda>p. OutOfFuel,
      parseBlockStmt = \<lambda>p. OutOfFuel,
      parseBlockStmt_indents = \<lambda>p. OutOfFuel,
      parseBlockStmt_loop = \<lambda>stmts p. OutOfFuel,
      parseBlockStmt_skip = \<lambda>p. OutOfFuel,
      parseCallExpr = \<lambda>fn p. OutOfFuel,
      parseCallArgs = \<lambda>p. OutOfFuel,
      parseCallArgs_loop = \<lambda>args p. OutOfFuel,
      parseWhileExpr = \<lambda>p. OutOfFuel\<rparr>"
| "methods (Suc n) =
     (let m = methods n in
     \<lparr>parseStmt = parseStmt_body m,
      parseVarStmt = parseVarStmt_body m,
      parseVarStmt_loop = parseVarStmt_loop_body m,
      parseExprStmt = parseExprStmt_body m,
      parseExpr = parseExpr_body m,
      parseExpr_loop = parseExpr_loop_body m,
      parsePrefixExpr = parsePrefixExpr_body m,
      parseInfixExpr = parseInfixExpr_body m,
      parseGroupingExpr = parseGroupingExpr_body m,
      parseIfExpr = parseIfExpr_body m,
      parseBlockStmt = parseBlockStmt_body m,
      parseBlockStmt_indents = parseBlockStmt_indents_body m,
      parseBlockStmt_loop = parseBlockStmt_loop_body m,
      parseBlockStmt_skip = parseBlockStmt_skip_body m,
      parseCallExpr = parseCallExpr_body m,
      parseCallArgs = parseCallArgs_body m,
      parseCallArgs_loop = parseCallArgs_loop_body m,
      parseWhileExpr = parseWhileExpr_body m\<rparr>)"

text \<open>The loop of \<^verbatim>\<open>parse\<close>: \<^verbatim>\<open>for !p.end() { stmt := p.parseStmt(); ...; p.next() }\<close>.\<close>

fun parse :: "nat \<Rightarrow> Parser \<Rightarrow> Stmt list outcome" where
  "parse 0 p = OutOfFuel"
| "parse (Suc n) p =
     bind (Parser_end p) (\<lambda>e p.
       if e then Ret (statements p) p
       else
         bind (parseStmt (methods n) p) (\<lambda>stmt p.
           bind (Parser_next (case stmt of
                                None \<Rightarrow> p
                              | Some st \<Rightarrow> p\<lparr>statements := statements p @ [st]\<rparr>))
                (\<lambda>_ p. parse n p)))"

text \<open>
  \<^verbatim>\<open>StartParseRepl\<close>: the parser after the pass (its \<open>errors\<close> are the diagnostics) and the
  statements of the program.
\<close>

definition StartParseRepl :: "nat \<Rightarrow> string \<Rightarrow> Stmt list outcome" where
  "StartParseRepl fuel inp =
     (case StartLex (formatted inp) of
        Inl e \<Rightarrow> Panic e
      | Inr toks \<Rightarrow>
          if length toks = 0 then Panic NoTokens
          else
            bind (parse fuel (registerFixes
                    \<lparr>ptokens = toks, pindex = 0, statements = [], errors = [],
                     prefixParseFns = Map.empty, infixParseFns = Map.empty, indentLevel = 0\<rparr>))
                 (\<lambda>_ p. Ret (statements p) p))"

text \<open>
  What a call returned: the value and the diagnostics of the parser, or \<open>None\<close> after a
  panic or without fuel.
\<close>

definition returned :: "'a outcome \<Rightarrow> ('a \<times> string list) option" where
  "returned r = (case r of Ret x p \<Rightarrow> Some (x, errors p) | _ \<Rightarrow> None)"

text \<open>A token written in one line, for the statements of the theorems.\<close>

definition tok :: "TokenType \<Rightarrow> string \<Rightarrow> int \<Rightarrow> int \<Rightarrow> Token" where
  "tok n v r c = \<lparr>Name = n, Val = v, Pos = \<lparr>row = r, col = c\<rparr>\<rparr>"

text \<open>
  The two maps that \<^verbatim>\<open>registerFixes\<close> leaves in the parser (lemma \<open>registerFixes_eq\<close> below):
  names for them keep the states of the parser small in the proofs.
\<close>

definition prefixTable :: "TokenType \<rightharpoonup> prefixParseFn" where
  "prefixTable =
     [IDENT \<mapsto> ParseIdent, NUM \<mapsto> ParseIntLiteral, STRING \<mapsto> ParseStrLiteral,
      SUB \<mapsto> ParsePrefixExpr, LEFTPAREN \<mapsto> ParseGroupingExpr, IF \<mapsto> ParseIfExpr,
      WHILE \<mapsto> ParseWhileExpr, STR_kw \<mapsto> ParseStrLiteral, INT_kw \<mapsto> ParseIntLiteral]"

definition infixTable :: "TokenType \<rightharpoonup> infixParseFn" where
  "infixTable =
     [EQ \<mapsto> ParseInfixExpr, NOTEQ \<mapsto> ParseInfixExpr, ADD \<mapsto> ParseInfixExpr,
      ADDEQ \<mapsto> ParseInfixExpr, SUB \<mapsto> ParseInfixExpr, SUBEQ \<mapsto> ParseInfixExpr,
      DIV \<mapsto> ParseInfixExpr, DIVEQ \<mapsto> ParseInfixExpr, MULT \<mapsto> ParseInfixExpr,
      MULTEQ \<mapsto> ParseInfixExpr, GREAT \<mapsto> ParseInfixExpr, GREATEQ \<mapsto> ParseInfixExpr,
      LESSEQ \<mapsto> ParseInfixExpr, AND_kw \<mapsto> ParseInfixExpr, LEFTPAREN \<mapsto> ParseCallExpr]"

section \<open>Notions of the statements\<close>

text \<open>
  The number that a string of decimal digits writes, after the words of the specification
  ("an integer literal node with value N"), and the strings that write a number in the
  canonical way: digits only, and no leading zero except for the string \<open>0\<close> itself.
\<close>

definition digitVal :: "char \<Rightarrow> nat" where
  "digitVal c = of_char c - 48"

definition decimal_value :: "string \<Rightarrow> nat" where
  "decimal_value s = foldl (\<lambda>a c. 10 * a + digitVal c) 0 s"

definition isDigitByte :: "char \<Rightarrow> bool" where
  "isDigitByte c = IsDigit (rune_of_byte c)"

definition canonical :: "string \<Rightarrow> bool" where
  "canonical s = (s \<noteq> [] \<and> (\<forall>c \<in> set s. isDigitByte c) \<and> (s = ''0'' \<or> hd s \<noteq> CHR ''0''))"

text \<open>No token that the lexer holds has the kind of the end of input.\<close>

definition noEOF :: "Lexer \<Rightarrow> bool" where
  "noEOF l = (\<forall>t \<in> set (tokens l). Name t \<noteq> EOF)"

text \<open>
  A method keeps the indentation depth when every call of it that returns leaves
  \<open>indentLevel\<close> as it found it; \<open>all_keep m\<close> says so of every method of the record \<open>m\<close>.
\<close>

definition keep :: "(Parser \<Rightarrow> 'a outcome) \<Rightarrow> bool" where
  "keep f = (\<forall>p x p'. f p = Ret x p' \<longrightarrow> indentLevel p' = indentLevel p)"

definition all_keep :: "calls \<Rightarrow> bool" where
  "all_keep m =
     (keep (parseStmt m) \<and>
      keep (parseVarStmt m) \<and>
      keep (parseVarStmt_loop m) \<and>
      keep (parseExprStmt m) \<and>
      (\<forall>prec. keep (parseExpr m prec)) \<and>
      (\<forall>prec left. keep (parseExpr_loop m prec left)) \<and>
      keep (parsePrefixExpr m) \<and>
      (\<forall>l. keep (parseInfixExpr m l)) \<and>
      keep (parseGroupingExpr m) \<and>
      keep (parseIfExpr m) \<and>
      keep (parseBlockStmt m) \<and>
      keep (parseBlockStmt_indents m) \<and>
      (\<forall>stmts. keep (parseBlockStmt_loop m stmts)) \<and>
      keep (parseBlockStmt_skip m) \<and>
      (\<forall>fn. keep (parseCallExpr m fn)) \<and>
      keep (parseCallArgs m) \<and>
      (\<forall>args. keep (parseCallArgs_loop m args)) \<and>
      keep (parseWhileExpr m))"

section \<open>Running the parser by rewriting\<close>

lemma bind_Ret: "bind (Ret x p) f = f x p"
  by (simp add: bind_def)

lemma bind_Panic: "bind (Panic e) f = Panic e"
  by (simp add: bind_def)

lemma bind_OutOfFuel: "bind OutOfFuel f = OutOfFuel"
  by (simp add: bind_def)

text \<open>The rule that keeps the simplifier out of a continuation until its call has returned.\<close>

lemma bind_weak_cong: "m = m' \<Longrightarrow> bind m f = bind m' f"
  by simp

lemma methods_Suc_fields:
  "parseStmt (methods (Suc n)) = parseStmt_body (methods n)"
  "parseVarStmt (methods (Suc n)) = parseVarStmt_body (methods n)"
  "parseVarStmt_loop (methods (Suc n)) = parseVarStmt_loop_body (methods n)"
  "parseExprStmt (methods (Suc n)) = parseExprStmt_body (methods n)"
  "parseExpr (methods (Suc n)) = parseExpr_body (methods n)"
  "parseExpr_loop (methods (Suc n)) = parseExpr_loop_body (methods n)"
  "parsePrefixExpr (methods (Suc n)) = parsePrefixExpr_body (methods n)"
  "parseInfixExpr (methods (Suc n)) = parseInfixExpr_body (methods n)"
  "parseGroupingExpr (methods (Suc n)) = parseGroupingExpr_body (methods n)"
  "parseIfExpr (methods (Suc n)) = parseIfExpr_body (methods n)"
  "parseBlockStmt (methods (Suc n)) = parseBlockStmt_body (methods n)"
  "parseBlockStmt_indents (methods (Suc n)) = parseBlockStmt_indents_body (methods n)"
  "parseBlockStmt_loop (methods (Suc n)) = parseBlockStmt_loop_body (methods n)"
  "parseBlockStmt_skip (methods (Suc n)) = parseBlockStmt_skip_body (methods n)"
  "parseCallExpr (methods (Suc n)) = parseCallExpr_body (methods n)"
  "parseCallArgs (methods (Suc n)) = parseCallArgs_body (methods n)"
  "parseCallArgs_loop (methods (Suc n)) = parseCallArgs_loop_body (methods n)"
  "parseWhileExpr (methods (Suc n)) = parseWhileExpr_body (methods n)"
  by (simp_all add: Let_def)

lemma methods_numeral_fields:
  "parseStmt (methods (numeral k)) = parseStmt_body (methods (pred_numeral k))"
  "parseVarStmt (methods (numeral k)) = parseVarStmt_body (methods (pred_numeral k))"
  "parseVarStmt_loop (methods (numeral k)) = parseVarStmt_loop_body (methods (pred_numeral k))"
  "parseExprStmt (methods (numeral k)) = parseExprStmt_body (methods (pred_numeral k))"
  "parseExpr (methods (numeral k)) = parseExpr_body (methods (pred_numeral k))"
  "parseExpr_loop (methods (numeral k)) = parseExpr_loop_body (methods (pred_numeral k))"
  "parsePrefixExpr (methods (numeral k)) = parsePrefixExpr_body (methods (pred_numeral k))"
  "parseInfixExpr (methods (numeral k)) = parseInfixExpr_body (methods (pred_numeral k))"
  "parseGroupingExpr (methods (numeral k)) = parseGroupingExpr_body (methods (pred_numeral k))"
  "parseIfExpr (methods (numeral k)) = parseIfExpr_body (methods (pred_numeral k))"
  "parseBlockStmt (methods (numeral k)) = parseBlockStmt_body (methods (pred_numeral k))"
  "parseBlockStmt_indents (methods (numeral k)) = parseBlockStmt_indents_body (methods (pred_numeral k))"
  "parseBlockStmt_loop (methods (numeral k)) = parseBlockStmt_loop_body (methods (pred_numeral k))"
  "parseBlockStmt_skip (methods (numeral k)) = parseBlockStmt_skip_body (methods (pred_numeral k))"
  "parseCallExpr (methods (numeral k)) = parseCallExpr_body (methods (pred_numeral k))"
  "parseCallArgs (methods (numeral k)) = parseCallArgs_body (methods (pred_numeral k))"
  "parseCallArgs_loop (methods (numeral k)) = parseCallArgs_loop_body (methods (pred_numeral k))"
  "parseWhileExpr (methods (numeral k)) = parseWhileExpr_body (methods (pred_numeral k))"
  unfolding numeral_eq_Suc by (simp_all add: Let_def)

lemma methods_0_fields:
  "parseStmt (methods 0) = (\<lambda>p. OutOfFuel)"
  "parseVarStmt (methods 0) = (\<lambda>p. OutOfFuel)"
  "parseVarStmt_loop (methods 0) = (\<lambda>p. OutOfFuel)"
  "parseExprStmt (methods 0) = (\<lambda>p. OutOfFuel)"
  "parseExpr (methods 0) = (\<lambda>prec p. OutOfFuel)"
  "parseExpr_loop (methods 0) = (\<lambda>prec left p. OutOfFuel)"
  "parsePrefixExpr (methods 0) = (\<lambda>p. OutOfFuel)"
  "parseInfixExpr (methods 0) = (\<lambda>l p. OutOfFuel)"
  "parseGroupingExpr (methods 0) = (\<lambda>p. OutOfFuel)"
  "parseIfExpr (methods 0) = (\<lambda>p. OutOfFuel)"
  "parseBlockStmt (methods 0) = (\<lambda>p. OutOfFuel)"
  "parseBlockStmt_indents (methods 0) = (\<lambda>p. OutOfFuel)"
  "parseBlockStmt_loop (methods 0) = (\<lambda>stmts p. OutOfFuel)"
  "parseBlockStmt_skip (methods 0) = (\<lambda>p. OutOfFuel)"
  "parseCallExpr (methods 0) = (\<lambda>fn p. OutOfFuel)"
  "parseCallArgs (methods 0) = (\<lambda>p. OutOfFuel)"
  "parseCallArgs_loop (methods 0) = (\<lambda>args p. OutOfFuel)"
  "parseWhileExpr (methods 0) = (\<lambda>p. OutOfFuel)"
  by simp_all

lemma parse_numeral:
  "parse (numeral k) p =
     bind (Parser_end p) (\<lambda>e p.
       if e then Ret (statements p) p
       else
         bind (parseStmt (methods (pred_numeral k)) p) (\<lambda>stmt p.
           bind (Parser_next (case stmt of
                                None \<Rightarrow> p
                              | Some st \<Rightarrow> p\<lparr>statements := statements p @ [st]\<rparr>))
                (\<lambda>_ p. parse (pred_numeral k) p)))"
  unfolding numeral_eq_Suc by simp

lemmas parse_Suc = parse.simps(2)

declare methods.simps [simp del]
declare parse.simps [simp del]

lemma registerFixes_eq:
  "registerFixes p = p\<lparr>prefixParseFns := prefixTable, infixParseFns := infixTable\<rparr>"
  unfolding registerFixes_def Let_def prefixTable_def infixTable_def
  by (simp add: registerPrefix_def registerInfix_def)

lemma prefixTable_apply:
  "prefixTable k =
     [IDENT \<mapsto> ParseIdent, NUM \<mapsto> ParseIntLiteral, STRING \<mapsto> ParseStrLiteral,
      SUB \<mapsto> ParsePrefixExpr, LEFTPAREN \<mapsto> ParseGroupingExpr, IF \<mapsto> ParseIfExpr,
      WHILE \<mapsto> ParseWhileExpr, STR_kw \<mapsto> ParseStrLiteral, INT_kw \<mapsto> ParseIntLiteral] k"
  by (simp only: prefixTable_def)

lemma infixTable_apply:
  "infixTable k =
     [EQ \<mapsto> ParseInfixExpr, NOTEQ \<mapsto> ParseInfixExpr, ADD \<mapsto> ParseInfixExpr,
      ADDEQ \<mapsto> ParseInfixExpr, SUB \<mapsto> ParseInfixExpr, SUBEQ \<mapsto> ParseInfixExpr,
      DIV \<mapsto> ParseInfixExpr, DIVEQ \<mapsto> ParseInfixExpr, MULT \<mapsto> ParseInfixExpr,
      MULTEQ \<mapsto> ParseInfixExpr, GREAT \<mapsto> ParseInfixExpr, GREATEQ \<mapsto> ParseInfixExpr,
      LESSEQ \<mapsto> ParseInfixExpr, AND_kw \<mapsto> ParseInfixExpr, LEFTPAREN \<mapsto> ParseCallExpr] k"
  by (simp only: infixTable_def)

lemma precedence_apply:
  "precedence k =
     [EQ \<mapsto> EQUALS_prec, NOTEQ \<mapsto> EQUALS_prec, LESS \<mapsto> GTLT, LESSEQ \<mapsto> GTLT, GREAT \<mapsto> GTLT,
      GREATEQ \<mapsto> GTLT, AND_kw \<mapsto> GTLT, OR_kw \<mapsto> GTLT, ADD \<mapsto> SUM_prec, ADDEQ \<mapsto> SUM_prec,
      SUB \<mapsto> SUM_prec, SUBEQ \<mapsto> SUM_prec, DIV \<mapsto> PRODUCT, DIVEQ \<mapsto> PRODUCT, MULT \<mapsto> PRODUCT,
      MULTEQ \<mapsto> PRODUCT, LEFTPAREN \<mapsto> CALL] k"
  by (simp only: precedence_def)

lemmas body_defs =
  parseStmt_body_def parseVarStmt_body_def parseVarStmt_loop_body_def parseExprStmt_body_def
  parseExpr_body_def parseExpr_loop_body_def parsePrefixExpr_body_def parseInfixExpr_body_def
  parseGroupingExpr_body_def parseIfExpr_body_def parseBlockStmt_body_def
  parseBlockStmt_indents_body_def parseBlockStmt_loop_body_def parseBlockStmt_skip_body_def
  parseCallExpr_body_def parseCallArgs_body_def parseCallArgs_loop_body_def
  parseWhileExpr_body_def

lemmas cursor_defs =
  Parser_current_def Parser_end_def Parser_peek_def Parser_next_def checkCurrent_def
  checkPeek_def peekError_def expectCurrent_def expectPeek_def currentPrec_def peekPrec_def
  parseIdent_def parseIntLiteral_def parseStrLiteral_def GetCol_def GetPosition_def

lemmas parser_eval =
  bind_Ret bind_Panic bind_OutOfFuel methods_numeral_fields methods_Suc_fields methods_0_fields
  parse_numeral parse_Suc body_defs cursor_defs registerFixes_eq prefixTable_apply
  infixTable_apply precedence_apply Token_zero_def returned_def

lemmas ParseInt_eval = ParseInt_def ParseUint_def maxUint64_def lower_def Let_def

lemma ParseInt_digits:
  "ParseInt ''1'' = Inr 1" "ParseInt ''2'' = Inr 2" "ParseInt ''3'' = Inr 3"
  by (simp_all add: ParseInt_eval)

lemma Itoa_small:
  "Itoa 1 = ''1''" "Itoa 2 = ''2''" "Itoa 3 = ''3''" "Itoa 4 = ''4''" "Itoa 5 = ''5''"
  by code_simp+

section \<open>The end-of-input token\<close>

text \<open>
  The lexer never emits a token of the kind \<^verbatim>\<open>EOF\<close> (the token that \<^verbatim>\<open>lexText\<close> takes back
  and extends keeps its kind or becomes an identifier or a keyword), so whenever \<^verbatim>\<open>StartLex\<close>
  returns, the token that it appends is the only one of that kind, and the last.
\<close>

lemma lexString_loop_tokens: "lexString_loop nxt l = Inr l' \<Longrightarrow> tokens l' = tokens l"
proof (induction nxt l rule: lexString_loop.induct)
  case (1 nxt l)
  show ?case
  proof (cases "nxt \<noteq> 34")
    case False
    with "1.prems" show ?thesis by (simp add: lexString_loop.simps[of nxt l])
  next
    case True
    let ?l1 = "l\<lparr>index := index l + 1\<rparr>"
    from True "1.prems" obtain nxt1 err where pk: "peek ?l1 = Inr (nxt1, err)"
      by (cases "peek ?l1") (auto simp: lexString_loop.simps[of nxt l] Let_def)
    show ?thesis
    proof (cases err)
      case True
      with \<open>nxt \<noteq> 34\<close> pk "1.prems" show ?thesis
        by (auto simp: lexString_loop.simps[of nxt l] Let_def)
    next
      case False
      with \<open>nxt \<noteq> 34\<close> pk "1.prems" have "lexString_loop nxt1 ?l1 = Inr l'"
        by (simp add: lexString_loop.simps[of nxt l] Let_def)
      with "1.IH"[OF \<open>nxt \<noteq> 34\<close> refl pk refl False] show ?thesis by simp
    qed
  qed
qed

lemma lexInt_loop_tokens: "lexInt_loop nxt l = Inr l' \<Longrightarrow> tokens l' = tokens l"
proof (induction nxt l rule: lexInt_loop.induct)
  case (1 nxt l)
  show ?case
  proof (cases "IsDigit nxt")
    case False
    with "1.prems" show ?thesis by (simp add: lexInt_loop.simps[of nxt l])
  next
    case True
    let ?l1 = "l\<lparr>index := index l + 1\<rparr>"
    from True "1.prems" obtain nxt1 err where pk: "peek ?l1 = Inr (nxt1, err)"
      by (cases "peek ?l1") (auto simp: lexInt_loop.simps[of nxt l] Let_def)
    show ?thesis
    proof (cases err)
      case True
      with \<open>IsDigit nxt\<close> pk "1.prems" show ?thesis
        by (auto simp: lexInt_loop.simps[of nxt l] Let_def)
    next
      case False
      with \<open>IsDigit nxt\<close> pk "1.prems" have "lexInt_loop nxt1 ?l1 = Inr l'"
        by (simp add: lexInt_loop.simps[of nxt l] Let_def)
      with "1.IH"[OF \<open>IsDigit nxt\<close> refl pk refl False] show ?thesis by simp
    qed
  qed
qed

lemma nextLine_loop_tokens: "nextLine_loop l = Inr l' \<Longrightarrow> tokens l' = tokens l"
proof (induction l rule: nextLine_loop.induct)
  case (1 l)
  show ?case
  proof (cases "length (input l) \<le> index l")
    case True
    with "1.prems" show ?thesis by (simp add: nextLine_loop.simps[of l])
  next
    case False
    show ?thesis
    proof (cases "rune_of_byte (input l ! index l) \<noteq> 10 \<and> int (index l) < int (length (input l)) - 1")
      case True
      with False "1.prems" have "nextLine_loop (l\<lparr>index := index l + 1\<rparr>) = Inr l'"
        by (simp add: nextLine_loop.simps[of l])
      with "1.IH"[OF False True] show ?thesis by simp
    next
      case False
      with \<open>\<not> length (input l) \<le> index l\<close> "1.prems" show ?thesis
        by (auto simp: nextLine_loop.simps[of l])
    qed
  qed
qed

lemma nextLine_noEOF: "nextLine l = Inr l' \<Longrightarrow> noEOF l \<Longrightarrow> noEOF l'"
  using nextLine_loop_tokens[of "l\<lparr>line := line l + 1, column := 0, currentType := -1\<rparr>" l']
  by (simp add: nextLine_def noEOF_def)

lemma keywordName_not_EOF: "Name t \<noteq> EOF \<Longrightarrow> Name (keywordName t) \<noteq> EOF"
  by (simp add: keywordName_def)

lemma keyword_fold_not_EOF:
  "Name t \<noteq> EOF \<Longrightarrow>
   Name (foldl (\<lambda>t keyword. if Val t = keyword then keywordName t else t) t ks) \<noteq> EOF"
  by (induction ks arbitrary: t) (simp_all add: keywordName_not_EOF)

lemma noEOF_butlast: "noEOF l \<Longrightarrow> \<forall>t \<in> set (butlast (tokens l)). Name t \<noteq> EOF"
  by (auto simp: noEOF_def dest: in_set_butlastD)

lemma lexText_noEOF: "lexText v l = Inr l' \<Longrightarrow> noEOF l \<Longrightarrow> noEOF l'"
  using keyword_fold_not_EOF noEOF_butlast[of l]
  by (auto simp: lexText_def Let_def noEOF_def split: if_splits)

lemma lexString_noEOF: "lexString l = Inr l' \<Longrightarrow> noEOF l \<Longrightarrow> noEOF l'"
  by (auto simp: lexString_def Let_def noEOF_def split: sum.splits if_splits prod.splits
           dest!: lexString_loop_tokens)

lemma lexInt_noEOF: "lexInt l = Inr l' \<Longrightarrow> noEOF l \<Longrightarrow> noEOF l'"
  by (auto simp: lexInt_def Let_def noEOF_def split: sum.splits if_splits prod.splits
           dest!: lexInt_loop_tokens)

lemma lexPunct_noEOF: "name \<noteq> EOF \<Longrightarrow> noEOF l \<Longrightarrow> noEOF (lexPunct name v l)"
  by (simp add: lexPunct_def noEOF_def)

lemma lexOperator_noEOF:
  "lexOperator n2 v2 b n1 v1 l = Inr l' \<Longrightarrow> n2 \<noteq> EOF \<Longrightarrow> n1 \<noteq> EOF \<Longrightarrow> noEOF l \<Longrightarrow> noEOF l'"
  by (auto simp: lexOperator_def lexPunct_def Let_def noEOF_def split: sum.splits if_splits prod.splits)

lemma lexDefault_noEOF: "lexDefault l = Inr l' \<Longrightarrow> noEOF l \<Longrightarrow> noEOF l'"
  by (auto simp: lexDefault_def Token_zero_def split: if_splits
           dest: nextLine_noEOF lexText_noEOF lexInt_noEOF)
     (auto simp: noEOF_def)

lemma noEOF_updates:
  "noEOF (l\<lparr>current := c\<rparr>) = noEOF l"
  "noEOF (l\<lparr>index := i, column := k\<rparr>) = noEOF l"
  "noEOF (lexNL l) = noEOF l"
  "noEOF (lexTab l) = noEOF l"
  "noEOF (lexPunct name v l) = (name \<noteq> EOF \<and> noEOF l)"
  by (auto simp: noEOF_def lexNL_def lexTab_def lexPunct_def)

lemma lex_body_noEOF:
  assumes "lex_body l = Inr l'" and "noEOF l"
  shows "noEOF l'"
proof -
  have a: "\<And>x y. nextLine x = Inr y \<Longrightarrow> noEOF x \<longrightarrow> noEOF y"
    using nextLine_noEOF by blast
  have b: "\<And>n2 v2 k n1 v1 x y. lexOperator n2 v2 k n1 v1 x = Inr y \<Longrightarrow>
             n2 \<noteq> EOF \<and> n1 \<noteq> EOF \<and> noEOF x \<longrightarrow> noEOF y"
    using lexOperator_noEOF by blast
  have c: "\<And>x y. lexString x = Inr y \<Longrightarrow> noEOF x \<longrightarrow> noEOF y"
    using lexString_noEOF by blast
  have d: "\<And>x y. lexDefault x = Inr y \<Longrightarrow> noEOF x \<longrightarrow> noEOF y"
    using lexDefault_noEOF by blast
  from assms show ?thesis
    unfolding lex_body_def Let_def
    by (auto split: if_splits sum.splits dest!: a b c d simp: noEOF_updates)
qed

lemma lex_noEOF: "lex l = Inr l' \<Longrightarrow> noEOF l \<Longrightarrow> noEOF l'"
proof (induction l rule: lex.induct)
  case (1 l)
  from "1.prems"(1) obtain l1 where b: "lex_body l = Inr l1"
    by (cases "lex_body l") (auto simp: lex.simps[of l])
  from b "1.prems"(2) have n1: "noEOF l1" by (rule lex_body_noEOF)
  show ?case
  proof (cases "index l1 < length (input l1)")
    case True
    with b "1.prems"(1) have "lex l1 = Inr l'" by (simp add: lex.simps[of l])
    with "1.IH"[OF b True] n1 show ?thesis by simp
  next
    case False
    with b "1.prems"(1) have "l' = l1" by (simp add: lex.simps[of l])
    with n1 show ?thesis by simp
  qed
qed

lemma StartLex_ends_with_one_EOF:
  assumes "StartLex s = Inr ts"
  shows "ts \<noteq> [] \<and> Name (last ts) = EOF \<and> length (filter (\<lambda>t. Name t = EOF) ts) = 1"
proof -
  let ?l = "\<lparr>index = 0, input = s, line = 1, column = 0, current = 32, currentType = 0,
             tokens = []\<rparr>"
  from assms obtain l1 where l: "lex ?l = Inr l1"
    and ts: "ts = tokens l1 @ [\<lparr>Name = EOF, Val = [], Pos = \<lparr>row = line l1 + 1, col = 0\<rparr>\<rparr>]"
    by (cases "lex ?l") (auto simp: StartLex_def Let_def)
  have "noEOF ?l" by (simp add: noEOF_def)
  with l have "noEOF l1" by (rule lex_noEOF)
  then have "filter (\<lambda>t. Name t = EOF) (tokens l1) = []"
    by (auto simp: noEOF_def filter_empty_conv)
  with ts show ?thesis by simp
qed
section \<open>The claims about the lexer\<close>

text \<open>
  C1 (the code departs from it). The claim: for every input string, \<^verbatim>\<open>StartLex\<close> returns
  without raising a non-empty token sequence that ends with the end-of-input token, which
  occurs exactly once. On the empty string the loop of \<^verbatim>\<open>lex\<close> reads \<^verbatim>\<open>l.input[0]\<close> before
  its condition is tested, and on a double quote in the last place \<^verbatim>\<open>lexString\<close> moves the
  index past the end before \<^verbatim>\<open>peek\<close> reads the byte after it: both runs panic with an index
  out of range and return no tokens. (Whenever \<^verbatim>\<open>StartLex\<close> does return, the rest of the claim
  holds: lemma \<open>StartLex_ends_with_one_EOF\<close>.)
\<close>

theorem C1_StartLex_panics:
  "StartLex [] = Inl IndexOutOfRange \<and> StartLex [CHR 0x22] = Inl IndexOutOfRange \<and>
   StartLex (''x = '' @ [CHR 0x22]) = Inl IndexOutOfRange"
  by code_simp

text \<open>
  C2 (the code departs from it). The claim: lexing \<open>iffy\<close> yields one token of identifier
  kind with the text \<open>iffy\<close>. \<^verbatim>\<open>lexText\<close> resets the kind to \<^verbatim>\<open>IDENT\<close> only in its branch for
  \<^verbatim>\<open>currentType == TokenKeyword\<close>, and no statement of the lexer stores \<^verbatim>\<open>TokenKeyword\<close>:
  after \<open>if\<close> the third letter takes the branch for \<^verbatim>\<open>TokenIdent\<close>, which keeps the kind
  \<^verbatim>\<open>IF\<close>. The token that comes out has the kind \<^verbatim>\<open>IF\<close> and the text \<open>iffy\<close>.
\<close>

theorem C2_iffy_keeps_keyword_kind:
  "StartLex ''iffy'' =
     Inr [\<lparr>Name = IF, Val = ''iffy'', Pos = \<lparr>row = 1, col = 0\<rparr>\<rparr>,
          \<lparr>Name = EOF, Val = [], Pos = \<lparr>row = 2, col = 0\<rparr>\<rparr>]"
  by code_simp

text \<open>
  C5 (the code departs from it). The claim: a string literal whose opening quote has no
  closing quote before the end of the input yields an illegal token at the position of the
  opening quote, and no string token that runs to the end of the input. \<^verbatim>\<open>lexString\<close> emits
  the illegal token only when the first \<^verbatim>\<open>peek\<close> fails, that is when one byte follows the
  quote; when the later \<^verbatim>\<open>peek\<close> of its loop fails it leaves the loop and emits a \<^verbatim>\<open>STRING\<close>
  token. The input is a double quote followed by \<open>ab\<close>.
\<close>

theorem C5_unterminated_string_token:
  "StartLex ([CHR 0x22] @ ''ab'') =
     Inr [\<lparr>Name = STRING, Val = ''ab'', Pos = \<lparr>row = 1, col = 0\<rparr>\<rparr>,
          \<lparr>Name = EOF, Val = [], Pos = \<lparr>row = 2, col = 0\<rparr>\<rparr>]"
  by code_simp

section \<open>The claims about the parser on given inputs\<close>

text \<open>The sibling of the missing case of C3: \<open><=\<close> is registered, and \<open>a <= b\<close> gives an infix node.\<close>

lemma infix_LESSEQ_parses:
  "returned (StartParseRepl 20 ''a <= b'') =
     Some ([ExprStmt (tok IDENT ''a'' 1 0)
              (Some (InfixExpr (tok LESSEQ ''<='' 1 2)
                 (Some (IdentifierExpr (Identifier (tok IDENT ''a'' 1 0) ''a''))) ''<=''
                 (Some (IdentifierExpr (Identifier (tok IDENT ''b'' 1 5) ''b'')))))], [])"
proof -
  have f: "formatted ''a <= b'' = ''a <= b''" by code_simp
  have l: "StartLex ''a <= b'' =
     Inr [tok IDENT ''a'' 1 0, tok LESSEQ ''<='' 1 2, tok IDENT ''b'' 1 5, tok EOF [] 2 0]"
    by code_simp
  show ?thesis
    unfolding StartParseRepl_def f l
    by (simp add: parser_eval tok_def cong: bind_weak_cong)
qed

text \<open>
  The branch of \<^verbatim>\<open>lex\<close> for \<open>!=\<close> lacks the two increments of its siblings: the \<open>=\<close> is lexed a
  second time, and the right operand of the infix node of \<open>a != b\<close> is \<^verbatim>\<open>nil\<close>.
\<close>

lemma infix_NOTEQ_loses_operand:
  "returned (StartParseRepl 20 ''a != b'') =
     Some ([ExprStmt (tok IDENT ''a'' 1 0)
              (Some (InfixExpr (tok NOTEQ ''!='' 1 2)
                 (Some (IdentifierExpr (Identifier (tok IDENT ''a'' 1 0) ''a''))) ''!='' None)),
            ExprStmt (tok IDENT ''b'' 1 5)
              (Some (IdentifierExpr (Identifier (tok IDENT ''b'' 1 5) ''b'')))], [])"
proof -
  have f: "formatted ''a != b'' = ''a != b''" by code_simp
  have l: "StartLex ''a != b'' =
     Inr [tok IDENT ''a'' 1 0, tok NOTEQ ''!='' 1 2, tok EQUALS ''='' 1 3, tok IDENT ''b'' 1 5,
          tok EOF [] 2 0]"
    by code_simp
  show ?thesis
    unfolding StartParseRepl_def f l
    by (simp add: parser_eval tok_def cong: bind_weak_cong)
qed

text \<open>
  C3 (the code departs from it). The claim: every token kind that can continue an expression
  has an infix handler, in particular each of \<open><\<close>, \<open><=\<close>, \<open>>\<close>, \<open>>=\<close>, so that \<open>a OP b\<close> gives
  an infix node with both operands. \<^verbatim>\<open>registerFixes\<close> registers \<^verbatim>\<open>GREAT\<close>, \<^verbatim>\<open>GREATEQ\<close> and
  \<^verbatim>\<open>LESSEQ\<close> and leaves \<^verbatim>\<open>LESS\<close> out, while the precedence table binds \<^verbatim>\<open>LESS\<close>: the loop of
  \<^verbatim>\<open>parseExpr\<close> finds no handler and returns the left operand. The input \<open>a < b\<close> gives three
  expression statements (\<open>a\<close>, an empty one for \<open><\<close>, \<open>b\<close>) and no infix node.
\<close>

theorem C3_LESS_has_no_infix_handler:
  "infixParseFns (registerFixes p) LESS = None \<and> precedence LESS = Some GTLT \<and>
   returned (StartParseRepl 20 ''a < b'') =
     Some ([ExprStmt (tok IDENT ''a'' 1 0)
              (Some (IdentifierExpr (Identifier (tok IDENT ''a'' 1 0) ''a''))),
            ExprStmt (tok LESS ''<'' 1 2) None,
            ExprStmt (tok IDENT ''b'' 1 4)
              (Some (IdentifierExpr (Identifier (tok IDENT ''b'' 1 4) ''b'')))], [])"
proof -
  have f: "formatted ''a < b'' = ''a < b''" by code_simp
  have l: "StartLex ''a < b'' =
     Inr [tok IDENT ''a'' 1 0, tok LESS ''<'' 1 2, tok IDENT ''b'' 1 4, tok EOF [] 2 0]"
    by code_simp
  have r: "returned (StartParseRepl 20 ''a < b'') =
     Some ([ExprStmt (tok IDENT ''a'' 1 0)
              (Some (IdentifierExpr (Identifier (tok IDENT ''a'' 1 0) ''a''))),
            ExprStmt (tok LESS ''<'' 1 2) None,
            ExprStmt (tok IDENT ''b'' 1 4)
              (Some (IdentifierExpr (Identifier (tok IDENT ''b'' 1 4) ''b'')))], [])"
    unfolding StartParseRepl_def f l
    by (simp add: parser_eval tok_def cong: bind_weak_cong)
  have t: "infixParseFns (registerFixes p) LESS = None"
    by (simp add: registerFixes_eq infixTable_apply)
  have q: "precedence LESS = Some GTLT"
    by (simp add: precedence_apply)
  from t q r show ?thesis by blast
qed

text \<open>
  C4. For the input \<open>a = 1 + 2 * 3\<close> the parser returns one variable binding named \<open>a\<close>
  whose value is the tree \<open>(1 + (2 * 3))\<close>: the product is the right operand of the sum. There
  is no diagnostic.
\<close>

theorem C4_product_binds_tighter:
  "returned (StartParseRepl 20 ''a = 1 + 2 * 3'') =
     Some ([VarStmt (tok IDENT ''a'' 1 0) (Identifier (tok IDENT ''a'' 1 0) ''a'')
              (Some (InfixExpr (tok ADD ''+'' 1 6)
                 (Some (IntLiteral (tok NUM ''1'' 1 4) 1)) ''+''
                 (Some (InfixExpr (tok MULT ''*'' 1 10)
                    (Some (IntLiteral (tok NUM ''2'' 1 8) 2)) ''*''
                    (Some (IntLiteral (tok NUM ''3'' 1 12) 3))))))], [])"
proof -
  have f: "formatted ''a = 1 + 2 * 3'' = ''a = 1 + 2 * 3''" by code_simp
  have l: "StartLex ''a = 1 + 2 * 3'' =
     Inr [tok IDENT ''a'' 1 0, tok EQUALS ''='' 1 2, tok NUM ''1'' 1 4, tok ADD ''+'' 1 6,
          tok NUM ''2'' 1 8, tok MULT ''*'' 1 10, tok NUM ''3'' 1 12, tok EOF [] 2 0]"
    by code_simp
  show ?thesis
    unfolding StartParseRepl_def f l
    by (simp add: parser_eval tok_def ParseInt_digits cong: bind_weak_cong)
qed

text \<open>
  C6. Parsing \<open>if x\<close> followed by a newline (the colon is missing) returns: no panic, one
  diagnostic, and the statement of the broken construct with no expression. The second
  part puts a binding before the construct and one after it: both are returned, with the
  same single diagnostic.
\<close>

theorem C6_missing_colon_one_diagnostic:
  "returned (StartParseRepl 20 (''if x'' @ [CHR 0x0A])) =
     Some ([ExprStmt (tok IF ''if'' 1 0) None],
           [''error at line 1, column 4: expected next token to be :, got NEWLINE instead'']) \<and>
   returned (StartParseRepl 20 (''a = 1'' @ [CHR 0x0A] @ ''if x'' @ [CHR 0x0A] @ ''b = 2'' @ [CHR 0x0A])) =
     Some ([VarStmt (tok IDENT ''a'' 1 0) (Identifier (tok IDENT ''a'' 1 0) ''a'')
              (Some (IntLiteral (tok NUM ''1'' 1 4) 1)),
            ExprStmt (tok IF ''if'' 2 1) None,
            VarStmt (tok IDENT ''b'' 3 1) (Identifier (tok IDENT ''b'' 3 1) ''b'')
              (Some (IntLiteral (tok NUM ''2'' 3 5) 2))],
           [''error at line 2, column 5: expected next token to be :, got NEWLINE instead''])"
proof -
  have f1: "formatted (''if x'' @ [CHR 0x0A]) = ''if x'' @ [CHR 0x0A]" by code_simp
  have l1: "StartLex (''if x'' @ [CHR 0x0A]) =
     Inr [tok IF ''if'' 1 0, tok IDENT ''x'' 1 3, tok NL NL 1 4, tok EOF [] 3 0]"
    by code_simp
  have r1: "returned (StartParseRepl 20 (''if x'' @ [CHR 0x0A])) =
     Some ([ExprStmt (tok IF ''if'' 1 0) None],
           [''error at line 1, column 4: expected next token to be :, got NEWLINE instead''])"
    unfolding StartParseRepl_def f1 l1
    by (simp add: parser_eval tok_def Itoa_small cong: bind_weak_cong)
  have f2: "formatted (''a = 1'' @ [CHR 0x0A] @ ''if x'' @ [CHR 0x0A] @ ''b = 2'' @ [CHR 0x0A]) =
     ''a = 1'' @ [CHR 0x0A] @ ''if x'' @ [CHR 0x0A] @ ''b = 2'' @ [CHR 0x0A]" by code_simp
  have l2: "StartLex (''a = 1'' @ [CHR 0x0A] @ ''if x'' @ [CHR 0x0A] @ ''b = 2'' @ [CHR 0x0A]) =
     Inr [tok IDENT ''a'' 1 0, tok EQUALS ''='' 1 2, tok NUM ''1'' 1 4, tok NL NL 1 5,
          tok IF ''if'' 2 1, tok IDENT ''x'' 2 4, tok NL NL 2 5,
          tok IDENT ''b'' 3 1, tok EQUALS ''='' 3 3, tok NUM ''2'' 3 5, tok NL NL 3 6,
          tok EOF [] 5 0]"
    by code_simp
  have r2: "returned (StartParseRepl 20 (''a = 1'' @ [CHR 0x0A] @ ''if x'' @ [CHR 0x0A] @ ''b = 2'' @ [CHR 0x0A])) =
     Some ([VarStmt (tok IDENT ''a'' 1 0) (Identifier (tok IDENT ''a'' 1 0) ''a'')
              (Some (IntLiteral (tok NUM ''1'' 1 4) 1)),
            ExprStmt (tok IF ''if'' 2 1) None,
            VarStmt (tok IDENT ''b'' 3 1) (Identifier (tok IDENT ''b'' 3 1) ''b'')
              (Some (IntLiteral (tok NUM ''2'' 3 5) 2))],
           [''error at line 2, column 5: expected next token to be :, got NEWLINE instead''])"
    unfolding StartParseRepl_def f2 l2
    by (simp add: parser_eval tok_def Itoa_small ParseInt_digits cong: bind_weak_cong)
  from r1 r2 show ?thesis by (rule conjI)
qed

text \<open>
  C8. For \<open>f(1, 2)\<close> the call node has the two arguments \<open>1\<close> and \<open>2\<close>, in this order; for
  \<open>f()\<close> its argument list is empty.
\<close>

theorem C8_call_arguments:
  "returned (StartParseRepl 20 ''f(1, 2)'') =
     Some ([ExprStmt (tok IDENT ''f'' 1 0)
              (Some (CallExpr (tok LEFTPAREN ''('' 1 1)
                 (Some (IdentifierExpr (Identifier (tok IDENT ''f'' 1 0) ''f'')))
                 [Some (IntLiteral (tok NUM ''1'' 1 2) 1),
                  Some (IntLiteral (tok NUM ''2'' 1 5) 2)]))], []) \<and>
   returned (StartParseRepl 20 ''f()'') =
     Some ([ExprStmt (tok IDENT ''f'' 1 0)
              (Some (CallExpr (tok LEFTPAREN ''('' 1 1)
                 (Some (IdentifierExpr (Identifier (tok IDENT ''f'' 1 0) ''f''))) []))], [])"
proof -
  have f1: "formatted ''f(1, 2)'' = ''f(1, 2)''" by code_simp
  have l1: "StartLex ''f(1, 2)'' =
     Inr [tok IDENT ''f'' 1 0, tok LEFTPAREN ''('' 1 1, tok NUM ''1'' 1 2, tok COMMA '','' 1 3,
          tok NUM ''2'' 1 5, tok RIGHTPAREN '')'' 1 6, tok EOF [] 2 0]"
    by code_simp
  have r1: "returned (StartParseRepl 20 ''f(1, 2)'') =
     Some ([ExprStmt (tok IDENT ''f'' 1 0)
              (Some (CallExpr (tok LEFTPAREN ''('' 1 1)
                 (Some (IdentifierExpr (Identifier (tok IDENT ''f'' 1 0) ''f'')))
                 [Some (IntLiteral (tok NUM ''1'' 1 2) 1),
                  Some (IntLiteral (tok NUM ''2'' 1 5) 2)]))], [])"
    unfolding StartParseRepl_def f1 l1
    by (simp add: parser_eval tok_def ParseInt_digits cong: bind_weak_cong)
  have f2: "formatted ''f()'' = ''f()''" by code_simp
  have l2: "StartLex ''f()'' =
     Inr [tok IDENT ''f'' 1 0, tok LEFTPAREN ''('' 1 1, tok RIGHTPAREN '')'' 1 2, tok EOF [] 2 0]"
    by code_simp
  have r2: "returned (StartParseRepl 20 ''f()'') =
     Some ([ExprStmt (tok IDENT ''f'' 1 0)
              (Some (CallExpr (tok LEFTPAREN ''('' 1 1)
                 (Some (IdentifierExpr (Identifier (tok IDENT ''f'' 1 0) ''f''))) []))], [])"
    unfolding StartParseRepl_def f2 l2
    by (simp add: parser_eval tok_def cong: bind_weak_cong)
  from r1 r2 show ?thesis by (rule conjI)
qed

section \<open>Integer literals\<close>

lemma foldl_dec_mono: "n \<le> foldl (\<lambda>a c. 10 * a + digitVal c) n cs"
proof (induction cs arbitrary: n)
  case Nil
  show ?case by simp
next
  case (Cons c cs)
  have "n \<le> 10 * n + digitVal c" by simp
  also have "\<dots> \<le> foldl (\<lambda>a c. 10 * a + digitVal c) (10 * n + digitVal c) cs" by (rule Cons.IH)
  finally show ?case by simp
qed

lemma ParseUint_loop_decimal:
  assumes "\<forall>c \<in> set cs. isDigitByte c"
    and "foldl (\<lambda>a c. 10 * a + digitVal c) n cs < 2 ^ 64"
  shows "ParseUint_loop 10 u n cs = Inr (u, foldl (\<lambda>a c. 10 * a + digitVal c) n cs)"
  using assms
proof (induction cs arbitrary: n)
  case Nil
  show ?case by simp
next
  case (Cons ch cs)
  let ?c = "of_char ch :: nat"
  let ?n1 = "10 * n + digitVal ch"
  from Cons.prems(1) have dg: "48 \<le> ?c" "?c \<le> 57"
    by (simp_all add: isDigitByte_def IsDigit_def rune_of_byte_def)
  have le: "?n1 \<le> foldl (\<lambda>a c. 10 * a + digitVal c) ?n1 cs" by (rule foldl_dec_mono)
  with Cons.prems(2) have lt: "?n1 < 2 ^ 64" by simp
  have d: "digitVal ch = ?c - 48" by (simp add: digitVal_def)
  from dg d have d10: "digitVal ch < 10" by simp
  from lt have n_lt: "\<not> n \<ge> maxUint64 div 10 + 1"
    by (simp add: maxUint64_def)
  have m: "(n * 10 + (?c - 48)) mod 2 ^ 64 = ?n1"
    using lt d by (simp add: mult.commute)
  from Cons.prems have ih: "ParseUint_loop 10 u ?n1 cs = Inr (u, foldl (\<lambda>a c. 10 * a + digitVal c) ?n1 cs)"
    by (intro Cons.IH) simp_all
  show ?case
    using dg n_lt lt d10 ih m d
    by (simp add: Let_def maxUint64_def mult.commute)
qed

lemma digit_not_sign: "isDigitByte c \<Longrightarrow> c \<noteq> CHR ''+'' \<and> c \<noteq> CHR ''-''"
  by (auto simp: isDigitByte_def IsDigit_def rune_of_byte_def)

lemma ParseInt_canonical:
  assumes c: "canonical s" and b: "decimal_value s < 2 ^ 63"
  shows "ParseInt s = Inr (int (decimal_value s))"
proof (cases "s = ''0''")
  case True
  then show ?thesis by (simp add: ParseInt_eval decimal_value_def digitVal_def)
next
  case False
  from c have ne: "s \<noteq> []" and dg: "\<forall>c \<in> set s. isDigitByte c" and h: "hd s \<noteq> CHR ''0''"
    using False by (auto simp: canonical_def)
  from ne have s0: "s ! 0 = hd s" by (simp add: hd_conv_nth)
  from ne dg have "isDigitByte (hd s)" by simp
  then have sg: "hd s \<noteq> CHR ''+''" "hd s \<noteq> CHR ''-''" using digit_not_sign by blast+
  from b have b64: "foldl (\<lambda>a c. 10 * a + digitVal c) 0 s < 2 ^ 64"
    by (simp add: decimal_value_def)
  have lp: "ParseUint_loop 10 False 0 s = Inr (False, decimal_value s)"
    using ParseUint_loop_decimal[OF dg b64] by (simp add: decimal_value_def)
  have pu: "ParseUint s = Inr (decimal_value s)"
    using ne h s0 lp by (simp add: ParseUint_def)
  show ?thesis
    using ne sg s0 pu b by (simp add: ParseInt_def)
qed

lemma digit_char_roundtrip: "isDigitByte c \<Longrightarrow> char_of (48 + digitVal c) = c"
  by (simp add: isDigitByte_def IsDigit_def rune_of_byte_def digitVal_def)

lemma digitVal_lt: "isDigitByte c \<Longrightarrow> digitVal c < 10"
  by (auto simp: isDigitByte_def IsDigit_def rune_of_byte_def digitVal_def)

lemma char_of_48: "char_of (48::nat) = CHR ''0''"
  by code_simp

lemma digitVal_pos: "isDigitByte c \<Longrightarrow> c \<noteq> CHR ''0'' \<Longrightarrow> 0 < digitVal c"
proof -
  assume d: "isDigitByte c" and n: "c \<noteq> CHR ''0''"
  have "of_char c \<noteq> (48::nat)"
  proof
    assume "of_char c = (48::nat)"
    then have "char_of (of_char c :: nat) = (char_of (48::nat) :: char)" by simp
    then have "c = CHR ''0''" by (simp add: char_of_48)
    with n show False by simp
  qed
  with d show ?thesis by (auto simp: isDigitByte_def IsDigit_def rune_of_byte_def digitVal_def)
qed

lemma decimal_snoc: "decimal_value (xs @ [c]) = 10 * decimal_value xs + digitVal c"
  by (simp add: decimal_value_def)

lemma decimal_pos:
  "xs \<noteq> [] \<Longrightarrow> \<forall>c \<in> set xs. isDigitByte c \<Longrightarrow> hd xs \<noteq> CHR ''0'' \<Longrightarrow> 0 < decimal_value xs"
proof (induction xs rule: rev_induct)
  case Nil
  then show ?case by simp
next
  case (snoc c xs)
  show ?case
  proof (cases "xs = []")
    case True
    with snoc.prems show ?thesis using digitVal_pos[of c] by (simp add: decimal_value_def)
  next
    case False
    with snoc have "0 < decimal_value xs" by simp
    then show ?thesis by (simp add: decimal_snoc)
  qed
qed

lemma uitoa_decimal:
  "xs \<noteq> [] \<Longrightarrow> \<forall>c \<in> set xs. isDigitByte c \<Longrightarrow> hd xs \<noteq> CHR ''0'' \<Longrightarrow> uitoa (decimal_value xs) = xs"
proof (induction xs rule: rev_induct)
  case Nil
  then show ?case by simp
next
  case (snoc c xs)
  from snoc.prems have dc: "isDigitByte c" by simp
  show ?case
  proof (cases "xs = []")
    case True
    with dc show ?thesis
      using digitVal_lt[OF dc] digit_char_roundtrip[OF dc]
      by (simp add: decimal_value_def uitoa.simps[of "digitVal c"])
  next
    case False
    with snoc.prems have hx: "hd xs \<noteq> CHR ''0''" and dx: "\<forall>c \<in> set xs. isDigitByte c" by simp_all
    from snoc.IH[OF False dx hx] have ih: "uitoa (decimal_value xs) = xs" .
    from decimal_pos[OF False dx hx] have pos: "0 < decimal_value xs" .
    let ?v = "10 * decimal_value xs + digitVal c"
    from pos have ge: "\<not> ?v < 10" by simp
    have dv: "?v div 10 = decimal_value xs" using digitVal_lt[OF dc] by simp
    have md: "?v mod 10 = digitVal c" using digitVal_lt[OF dc] by simp
    show ?thesis
      using ge dv md ih digit_char_roundtrip[OF dc]
      by (simp add: decimal_snoc uitoa.simps[of ?v])
  qed
qed

lemma IntLiteral_String_canonical:
  assumes "canonical s"
  shows "IntLiteral_String (int (decimal_value s)) = s"
proof (cases "s = ''0''")
  case True
  then show ?thesis
    by (simp add: IntLiteral_String_def Itoa_def decimal_value_def digitVal_def uitoa.simps[of 0] char_of_48)
next
  case False
  with assms have "uitoa (decimal_value s) = s"
    by (intro uitoa_decimal) (auto simp: canonical_def)
  then show ?thesis by (simp add: IntLiteral_String_def Itoa_def)
qed


lemma formatted_no_blank: "CHR '' '' \<notin> set s \<Longrightarrow> formatted s = s"
  by (induction s rule: formatted.induct) auto

lemma digit_not_blank: "isDigitByte c \<Longrightarrow> c \<noteq> CHR '' ''"
  by (auto simp: isDigitByte_def IsDigit_def rune_of_byte_def)

lemma lexInt_loop_digits:
  assumes "\<forall>c \<in> set (input l). isDigitByte c" and "index l + 1 < length (input l)"
  shows "lexInt_loop (rune_of_byte (input l ! (index l + 1))) l =
           Inr (l\<lparr>index := length (input l) - 1\<rparr>)"
  using assms
proof (induction "length (input l) - index l" arbitrary: l rule: less_induct)
  case less
  let ?l1 = "l\<lparr>index := index l + 1\<rparr>"
  from less.prems have dg: "IsDigit (rune_of_byte (input l ! (index l + 1)))"
    by (simp add: isDigitByte_def)
  show ?case
  proof (cases "index l + 2 = length (input l)")
    case True
    then have "peek ?l1 = Inr (32, True)" by (simp add: peek_def)
    moreover from True have "?l1 = l\<lparr>index := length (input l) - 1\<rparr>" by simp
    ultimately show ?thesis
      using dg by (simp add: lexInt_loop.simps[of _ l] Let_def)
  next
    case False
    with less.prems have lt: "index l + 2 < length (input l)" by simp
    then have pk: "peek ?l1 = Inr (rune_of_byte (input l ! (index l + 2)), False)"
      by (simp add: peek_def)
    have "lexInt_loop (rune_of_byte (input ?l1 ! (index ?l1 + 1))) ?l1 =
            Inr (?l1\<lparr>index := length (input ?l1) - 1\<rparr>)"
      using less.prems lt by (intro less.hyps) auto
    then have rec: "lexInt_loop (rune_of_byte (input l ! (index l + 2))) ?l1 =
            Inr (l\<lparr>index := length (input l) - 1\<rparr>)"
      by (simp add: numeral_2_eq_2)
    show ?thesis
      using dg pk rec by (simp add: lexInt_loop.simps[of _ l] Let_def)
  qed
qed

lemma digit_rune: "isDigitByte c \<Longrightarrow> 48 \<le> rune_of_byte c \<and> rune_of_byte c \<le> 57"
  by (simp add: isDigitByte_def IsDigit_def)

lemma string_of_rune_byte: "isDigitByte c \<Longrightarrow> string_of_rune (rune_of_byte c) = [c]"
  by (simp add: isDigitByte_def IsDigit_def rune_of_byte_def string_of_rune_def)

lemma lexInt_digits:
  assumes dg: "\<forall>c \<in> set (input l). isDigitByte c" and ne: "input l \<noteq> []" and i0: "index l = 0"
  shows "lexInt l =
           Inr (l\<lparr>currentType := TokenInt, index := length (input l) - 1,
                    tokens := tokens l @ [tok NUM (input l) (line l) (column l)]\<rparr>)"
proof (cases "length (input l) = 1")
  case True
  then obtain c where s: "input l = [c]" by (cases "input l") auto
  with dg have "isDigitByte c" by simp
  then have v: "string_of_rune (rune_of_byte c) = [c]" by (rule string_of_rune_byte)
  show ?thesis
    using s i0 v by (simp add: lexInt_def peek_def Let_def tok_def)
next
  case False
  with ne have lt: "index l + 1 < length (input l)" using i0 by (cases "input l") auto
  let ?l1 = "l\<lparr>currentType := TokenInt\<rparr>"
  have pk: "peek ?l1 = Inr (rune_of_byte (input l ! 1), False)"
    using lt i0 by (simp add: peek_def)
  have lp: "lexInt_loop (rune_of_byte (input ?l1 ! (index ?l1 + 1))) ?l1 =
              Inr (?l1\<lparr>index := length (input ?l1) - 1\<rparr>)"
    using dg lt by (intro lexInt_loop_digits) simp_all
  then have lp': "lexInt_loop (rune_of_byte (input l ! 1)) ?l1 =
              Inr (?l1\<lparr>index := length (input l) - 1\<rparr>)"
    using i0 by simp
  have sl: "slice (input l) 0 (length (input l) - 1 + 1) = Inr (input l)"
    using ne by (simp add: slice_def)
  show ?thesis
    using pk lp' sl i0 by (simp add: lexInt_def Let_def tok_def)
qed

lemma StartLex_digits:
  assumes dg: "\<forall>c \<in> set s. isDigitByte c" and ne: "s \<noteq> []"
  shows "StartLex s = Inr [tok NUM s 1 0, tok EOF [] 2 0]"
proof -
  let ?l = "\<lparr>index = 0, input = s, line = 1, column = 0, current = 32, currentType = 0,
             tokens = []\<rparr>"
  let ?c = "rune_of_byte (s ! 0)"
  let ?la = "?l\<lparr>current := ?c\<rparr>"
  from ne dg have "isDigitByte (s ! 0)" by (cases s) auto
  then have r: "48 \<le> ?c" "?c \<le> 57" using digit_rune by blast+
  have li: "lexInt ?la =
      Inr (?la\<lparr>currentType := TokenInt, index := length s - 1,
               tokens := [tok NUM s 1 0]\<rparr>)"
    using lexInt_digits[of ?la] dg ne by simp
  have df: "lexDefault ?la = lexInt ?la"
    using r by (simp add: lexDefault_def IsSpace_def IsDigit_def)
  have body: "lex_body ?l =
      Inr (?la\<lparr>currentType := TokenInt, index := length s, tokens := [tok NUM s 1 0],
               column := 1\<rparr>)"
    using r ne df li by (simp add: lex_body_def Let_def)
  have "lex ?l =
      Inr (?la\<lparr>currentType := TokenInt, index := length s, tokens := [tok NUM s 1 0],
               column := 1\<rparr>)"
    by (subst lex.simps) (simp add: body)
  then show ?thesis
    by (simp add: StartLex_def tok_def)
qed

lemma parse_single_literal:
  assumes "ParseInt s = Inr v"
  shows "returned (bind (parse 20 (registerFixes
                    \<lparr>ptokens = [tok NUM s 1 0, tok EOF [] 2 0], pindex = 0, statements = [],
                     errors = [], prefixParseFns = Map.empty, infixParseFns = Map.empty,
                     indentLevel = 0\<rparr>)) (\<lambda>_ p. Ret (statements p) p)) =
         Some ([ExprStmt (tok NUM s 1 0) (Some (IntLiteral (tok NUM s 1 0) v))], [])"
  using assms by (simp add: parser_eval tok_def cong: bind_weak_cong)

lemma parse_single_literal_error:
  assumes "ParseInt s = Inl e"
  shows "returned (bind (parse 20 (registerFixes
                    \<lparr>ptokens = [tok NUM s 1 0, tok EOF [] 2 0], pindex = 0, statements = [],
                     errors = [], prefixParseFns = Map.empty, infixParseFns = Map.empty,
                     indentLevel = 0\<rparr>)) (\<lambda>_ p. Ret (statements p) p)) =
         Some ([ExprStmt (tok NUM s 1 0) None],
               [''could not parse '' @ [CHR 0x22] @ s @ [CHR 0x22] @ '' as int''])"
  using assms by (simp add: parser_eval tok_def cong: bind_weak_cong)

lemma returned_StartParseRepl_digits:
  assumes dg: "\<forall>c \<in> set s. isDigitByte c" and ne: "s \<noteq> []"
  shows "returned (StartParseRepl 20 s) =
         returned (bind (parse 20 (registerFixes
                    \<lparr>ptokens = [tok NUM s 1 0, tok EOF [] 2 0], pindex = 0, statements = [],
                     errors = [], prefixParseFns = Map.empty, infixParseFns = Map.empty,
                     indentLevel = 0\<rparr>)) (\<lambda>_ p. Ret (statements p) p))"
proof -
  from dg have "CHR '' '' \<notin> set s" using digit_not_blank by blast
  then have f: "formatted s = s" by (rule formatted_no_blank)
  have l: "StartLex s = Inr [tok NUM s 1 0, tok EOF [] 2 0]" using dg ne by (rule StartLex_digits)
  show ?thesis unfolding StartParseRepl_def f l by simp
qed

text \<open>
  C7 (counterexample). The claim: for every string \<open>N\<close> of decimal digits, parsing yields an
  integer literal with the value \<open>N\<close>, and its rendering gives back the text \<open>N\<close>. The parser
  calls \<^verbatim>\<open>strconv.ParseInt\<close> with base 0, which reads a leading zero as the octal prefix: the
  text \<open>010\<close>, whose decimal value is ten, gives the literal 8, rendered \<open>8\<close>. And the value is
  an \<^verbatim>\<open>int64\<close>: the text of \<open>2 ^ 63\<close> gives no literal, but a diagnostic.
\<close>

theorem C7_leading_zero_and_range_counterexample:
  "decimal_value ''010'' = 10 \<and>
   returned (StartParseRepl 20 ''010'') =
     Some ([ExprStmt (tok NUM ''010'' 1 0) (Some (IntLiteral (tok NUM ''010'' 1 0) 8))], []) \<and>
   IntLiteral_String 8 = ''8'' \<and>
   returned (StartParseRepl 20 ''9223372036854775808'') =
     Some ([ExprStmt (tok NUM ''9223372036854775808'' 1 0) None],
           [''could not parse '' @ [CHR 0x22] @ ''9223372036854775808'' @ [CHR 0x22] @ '' as int''])"
proof -
  have d1: "\<forall>c \<in> set ''010''. isDigitByte c"
    by (simp add: isDigitByte_def IsDigit_def rune_of_byte_def)
  have d2: "\<forall>c \<in> set ''9223372036854775808''. isDigitByte c"
    by (simp add: isDigitByte_def IsDigit_def rune_of_byte_def)
  have p1: "ParseInt ''010'' = Inr 8" by (simp add: ParseInt_eval)
  have p2: "ParseInt ''9223372036854775808'' = Inl ErrRange" by (simp add: ParseInt_eval)
  have v: "decimal_value ''010'' = 10" by (simp add: decimal_value_def digitVal_def)
  have r1: "returned (StartParseRepl 20 ''010'') =
     Some ([ExprStmt (tok NUM ''010'' 1 0) (Some (IntLiteral (tok NUM ''010'' 1 0) 8))], [])"
    using returned_StartParseRepl_digits[OF d1] parse_single_literal[OF p1] by simp
  have i: "IntLiteral_String 8 = ''8''"
    by (simp add: IntLiteral_String_def Itoa_def uitoa.simps[of 8]) code_simp
  have r2: "returned (StartParseRepl 20 ''9223372036854775808'') =
     Some ([ExprStmt (tok NUM ''9223372036854775808'' 1 0) None],
           [''could not parse '' @ [CHR 0x22] @ ''9223372036854775808'' @ [CHR 0x22] @ '' as int''])"
    using returned_StartParseRepl_digits[OF d2] parse_single_literal_error[OF p2] by simp
  from v r1 i r2 show ?thesis by blast
qed

text \<open>
  C7 (as amended). For every string \<open>N\<close> of decimal digits that is \<open>0\<close> or has no leading
  zero, and whose value is below \<open>2 ^ 63\<close>: parsing \<open>N\<close> returns one expression statement
  holding the integer literal of the value \<open>N\<close>, with no diagnostic, and the rendering of
  the literal is the text \<open>N\<close>.
\<close>

theorem C7_canonical_literal_roundtrip:
  assumes "canonical s" and "decimal_value s < 2 ^ 63"
  shows "returned (StartParseRepl 20 s) =
           Some ([ExprStmt (tok NUM s 1 0)
                    (Some (IntLiteral (tok NUM s 1 0) (int (decimal_value s))))], []) \<and>
         IntLiteral_String (int (decimal_value s)) = s"
proof -
  from assms(1) have dg: "\<forall>c \<in> set s. isDigitByte c" and ne: "s \<noteq> []"
    by (auto simp: canonical_def)
  have p: "ParseInt s = Inr (int (decimal_value s))" using assms by (rule ParseInt_canonical)
  have "returned (StartParseRepl 20 s) =
           Some ([ExprStmt (tok NUM s 1 0)
                    (Some (IntLiteral (tok NUM s 1 0) (int (decimal_value s))))], [])"
    using returned_StartParseRepl_digits[OF dg ne] parse_single_literal[OF p] by simp
  moreover have "IntLiteral_String (int (decimal_value s)) = s"
    using assms(1) by (rule IntLiteral_String_canonical)
  ultimately show ?thesis by simp
qed

theorem C7_canonical_literal_roundtrip_witness:
  "canonical ''42'' \<and> decimal_value ''42'' < 2 ^ 63 \<and>
   returned (StartParseRepl 20 ''42'') =
     Some ([ExprStmt (tok NUM ''42'' 1 0) (Some (IntLiteral (tok NUM ''42'' 1 0) 42))], []) \<and>
   IntLiteral_String 42 = ''42''"
proof -
  have c: "canonical ''42''"
    by (simp add: canonical_def isDigitByte_def IsDigit_def rune_of_byte_def)
  have d: "decimal_value ''42'' = 42" by (simp add: decimal_value_def digitVal_def)
  then have b: "decimal_value ''42'' < 2 ^ 63" by simp
  from C7_canonical_literal_roundtrip[OF c b] c b d show ?thesis by simp
qed

section \<open>The indentation depth\<close>

lemma keepD: "keep f \<Longrightarrow> f p = Ret x p' \<Longrightarrow> indentLevel p' = indentLevel p"
  by (auto simp: keep_def)

lemma bindE:
  assumes "bind m f = Ret y p2"
  obtains x p1 where "m = Ret x p1" and "f x p1 = Ret y p2"
  using assms by (cases m) (auto simp: bind_def)

lemma keep_Parser_current: "keep Parser_current"
  by (auto simp: keep_def Parser_current_def split: if_splits)

lemma keep_Parser_end: "keep Parser_end"
  unfolding keep_def Parser_end_def
  by (auto elim!: bindE dest!: keepD[OF keep_Parser_current])

lemma keep_Parser_peek: "keep Parser_peek"
  unfolding keep_def Parser_peek_def
  by (auto elim!: bindE dest!: keepD[OF keep_Parser_end] split: if_splits)

lemma keep_Parser_next: "keep Parser_next"
  unfolding keep_def Parser_next_def
  by (auto elim!: bindE dest!: keepD[OF keep_Parser_end] split: if_splits)

lemma keep_checkCurrent: "keep (checkCurrent t)"
  unfolding keep_def checkCurrent_def
  by (auto elim!: bindE dest!: keepD[OF keep_Parser_end] keepD[OF keep_Parser_current] split: if_splits)

lemma keep_checkPeek: "keep (checkPeek t)"
  unfolding keep_def checkPeek_def
  by (auto elim!: bindE dest!: keepD[OF keep_Parser_end] keepD[OF keep_Parser_peek] split: if_splits)

lemma keep_peekError: "keep (peekError t)"
  unfolding keep_def peekError_def
  by (auto elim!: bindE dest!: keepD[OF keep_Parser_peek])

lemma keep_expectCurrent: "keep (expectCurrent t)"
  unfolding keep_def expectCurrent_def
  by (auto elim!: bindE dest!: keepD[OF keep_checkCurrent] keepD[OF keep_Parser_next] split: if_splits)

lemma keep_expectPeek: "keep (expectPeek t)"
  unfolding keep_def expectPeek_def
  by (auto elim!: bindE dest!: keepD[OF keep_checkPeek] keepD[OF keep_Parser_next] keepD[OF keep_peekError]
      split: if_splits)

lemma keep_currentPrec: "keep currentPrec"
  unfolding keep_def currentPrec_def
  by (auto elim!: bindE dest!: keepD[OF keep_Parser_current])

lemma keep_peekPrec: "keep peekPrec"
  unfolding keep_def peekPrec_def
  by (auto elim!: bindE dest!: keepD[OF keep_Parser_peek])

lemma keep_parseIdent: "keep parseIdent"
  unfolding keep_def parseIdent_def
  by (auto elim!: bindE dest!: keepD[OF keep_Parser_current])

lemma keep_parseIntLiteral: "keep parseIntLiteral"
  unfolding keep_def parseIntLiteral_def
  by (auto elim!: bindE dest!: keepD[OF keep_Parser_current] split: sum.splits)

lemma keep_parseStrLiteral: "keep parseStrLiteral"
  unfolding keep_def parseStrLiteral_def
  by (auto elim!: bindE dest!: keepD[OF keep_Parser_current])

lemmas cursor_keeps =
  keepD[OF keep_Parser_current] keepD[OF keep_Parser_end] keepD[OF keep_Parser_peek]
  keepD[OF keep_Parser_next] keepD[OF keep_checkCurrent] keepD[OF keep_checkPeek]
  keepD[OF keep_peekError] keepD[OF keep_expectCurrent] keepD[OF keep_expectPeek]
  keepD[OF keep_currentPrec] keepD[OF keep_peekPrec] keepD[OF keep_parseIdent]
  keepD[OF keep_parseIntLiteral] keepD[OF keep_parseStrLiteral]

lemma all_keepD:
  assumes "all_keep m"
  shows
    "\<And> p x p'. parseStmt m  p = Ret x p' \<Longrightarrow> indentLevel p' = indentLevel p"
    "\<And> p x p'. parseVarStmt m  p = Ret x p' \<Longrightarrow> indentLevel p' = indentLevel p"
    "\<And> p x p'. parseVarStmt_loop m  p = Ret x p' \<Longrightarrow> indentLevel p' = indentLevel p"
    "\<And> p x p'. parseExprStmt m  p = Ret x p' \<Longrightarrow> indentLevel p' = indentLevel p"
    "\<And>prec p x p'. parseExpr m prec p = Ret x p' \<Longrightarrow> indentLevel p' = indentLevel p"
    "\<And>prec left p x p'. parseExpr_loop m prec left p = Ret x p' \<Longrightarrow> indentLevel p' = indentLevel p"
    "\<And> p x p'. parsePrefixExpr m  p = Ret x p' \<Longrightarrow> indentLevel p' = indentLevel p"
    "\<And>l p x p'. parseInfixExpr m l p = Ret x p' \<Longrightarrow> indentLevel p' = indentLevel p"
    "\<And> p x p'. parseGroupingExpr m  p = Ret x p' \<Longrightarrow> indentLevel p' = indentLevel p"
    "\<And> p x p'. parseIfExpr m  p = Ret x p' \<Longrightarrow> indentLevel p' = indentLevel p"
    "\<And> p x p'. parseBlockStmt m  p = Ret x p' \<Longrightarrow> indentLevel p' = indentLevel p"
    "\<And> p x p'. parseBlockStmt_indents m  p = Ret x p' \<Longrightarrow> indentLevel p' = indentLevel p"
    "\<And>stmts p x p'. parseBlockStmt_loop m stmts p = Ret x p' \<Longrightarrow> indentLevel p' = indentLevel p"
    "\<And> p x p'. parseBlockStmt_skip m  p = Ret x p' \<Longrightarrow> indentLevel p' = indentLevel p"
    "\<And>fn p x p'. parseCallExpr m fn p = Ret x p' \<Longrightarrow> indentLevel p' = indentLevel p"
    "\<And> p x p'. parseCallArgs m  p = Ret x p' \<Longrightarrow> indentLevel p' = indentLevel p"
    "\<And>args p x p'. parseCallArgs_loop m args p = Ret x p' \<Longrightarrow> indentLevel p' = indentLevel p"
    "\<And> p x p'. parseWhileExpr m  p = Ret x p' \<Longrightarrow> indentLevel p' = indentLevel p"
  using assms by (auto simp: all_keep_def keep_def)

lemma keep_parseStmt_body:
  assumes a: "all_keep m"
  shows "keep (parseStmt_body m )"
  unfolding keep_def parseStmt_body_def
  by (auto elim!: bindE dest!: cursor_keeps all_keepD[OF a]
      split: if_splits option.splits prefixParseFn.splits infixParseFn.splits)

lemma keep_parseVarStmt_body:
  assumes a: "all_keep m"
  shows "keep (parseVarStmt_body m )"
  unfolding keep_def parseVarStmt_body_def
  by (auto elim!: bindE dest!: cursor_keeps all_keepD[OF a]
      split: if_splits option.splits prefixParseFn.splits infixParseFn.splits)

lemma keep_parseVarStmt_loop_body:
  assumes a: "all_keep m"
  shows "keep (parseVarStmt_loop_body m )"
  unfolding keep_def parseVarStmt_loop_body_def
  by (auto elim!: bindE dest!: cursor_keeps all_keepD[OF a]
      split: if_splits option.splits prefixParseFn.splits infixParseFn.splits)

lemma keep_parseExprStmt_body:
  assumes a: "all_keep m"
  shows "keep (parseExprStmt_body m )"
  unfolding keep_def parseExprStmt_body_def
  by (auto elim!: bindE dest!: cursor_keeps all_keepD[OF a]
      split: if_splits option.splits prefixParseFn.splits infixParseFn.splits)

lemma keep_parseExpr_body:
  assumes a: "all_keep m"
  shows "keep (parseExpr_body m prec)"
  unfolding keep_def parseExpr_body_def
  by (auto elim!: bindE dest!: cursor_keeps all_keepD[OF a]
      split: if_splits option.splits prefixParseFn.splits infixParseFn.splits)

lemma keep_parseExpr_loop_body:
  assumes a: "all_keep m"
  shows "keep (parseExpr_loop_body m prec left)"
  unfolding keep_def parseExpr_loop_body_def
  by (auto elim!: bindE dest!: cursor_keeps all_keepD[OF a]
      split: if_splits option.splits prefixParseFn.splits infixParseFn.splits)

lemma keep_parsePrefixExpr_body:
  assumes a: "all_keep m"
  shows "keep (parsePrefixExpr_body m )"
  unfolding keep_def parsePrefixExpr_body_def
  by (auto elim!: bindE dest!: cursor_keeps all_keepD[OF a]
      split: if_splits option.splits prefixParseFn.splits infixParseFn.splits)

lemma keep_parseInfixExpr_body:
  assumes a: "all_keep m"
  shows "keep (parseInfixExpr_body m l)"
  unfolding keep_def parseInfixExpr_body_def
  by (auto elim!: bindE dest!: cursor_keeps all_keepD[OF a]
      split: if_splits option.splits prefixParseFn.splits infixParseFn.splits)

lemma keep_parseGroupingExpr_body:
  assumes a: "all_keep m"
  shows "keep (parseGroupingExpr_body m )"
  unfolding keep_def parseGroupingExpr_body_def
  by (auto elim!: bindE dest!: cursor_keeps all_keepD[OF a]
      split: if_splits option.splits prefixParseFn.splits infixParseFn.splits)

lemma keep_parseIfExpr_body:
  assumes a: "all_keep m"
  shows "keep (parseIfExpr_body m )"
  unfolding keep_def parseIfExpr_body_def
  by (auto elim!: bindE dest!: cursor_keeps all_keepD[OF a]
      split: if_splits option.splits prefixParseFn.splits infixParseFn.splits)

lemma keep_parseBlockStmt_body:
  assumes a: "all_keep m"
  shows "keep (parseBlockStmt_body m )"
  unfolding keep_def parseBlockStmt_body_def
  by (auto elim!: bindE dest!: cursor_keeps all_keepD[OF a]
      split: if_splits option.splits prefixParseFn.splits infixParseFn.splits)

lemma keep_parseBlockStmt_indents_body:
  assumes a: "all_keep m"
  shows "keep (parseBlockStmt_indents_body m )"
  unfolding keep_def parseBlockStmt_indents_body_def
  by (auto elim!: bindE dest!: cursor_keeps all_keepD[OF a]
      split: if_splits option.splits prefixParseFn.splits infixParseFn.splits)

lemma keep_parseBlockStmt_loop_body:
  assumes a: "all_keep m"
  shows "keep (parseBlockStmt_loop_body m stmts)"
  unfolding keep_def parseBlockStmt_loop_body_def
  by (auto elim!: bindE dest!: cursor_keeps all_keepD[OF a]
      split: if_splits option.splits prefixParseFn.splits infixParseFn.splits)

lemma keep_parseBlockStmt_skip_body:
  assumes a: "all_keep m"
  shows "keep (parseBlockStmt_skip_body m )"
  unfolding keep_def parseBlockStmt_skip_body_def
  by (auto elim!: bindE dest!: cursor_keeps all_keepD[OF a]
      split: if_splits option.splits prefixParseFn.splits infixParseFn.splits)

lemma keep_parseCallExpr_body:
  assumes a: "all_keep m"
  shows "keep (parseCallExpr_body m fn)"
  unfolding keep_def parseCallExpr_body_def
  by (auto elim!: bindE dest!: cursor_keeps all_keepD[OF a]
      split: if_splits option.splits prefixParseFn.splits infixParseFn.splits)

lemma keep_parseCallArgs_body:
  assumes a: "all_keep m"
  shows "keep (parseCallArgs_body m )"
  unfolding keep_def parseCallArgs_body_def
  by (auto elim!: bindE dest!: cursor_keeps all_keepD[OF a]
      split: if_splits option.splits prefixParseFn.splits infixParseFn.splits)

lemma keep_parseCallArgs_loop_body:
  assumes a: "all_keep m"
  shows "keep (parseCallArgs_loop_body m args)"
  unfolding keep_def parseCallArgs_loop_body_def
  by (auto elim!: bindE dest!: cursor_keeps all_keepD[OF a]
      split: if_splits option.splits prefixParseFn.splits infixParseFn.splits)

lemma keep_parseWhileExpr_body:
  assumes a: "all_keep m"
  shows "keep (parseWhileExpr_body m )"
  unfolding keep_def parseWhileExpr_body_def
  by (auto elim!: bindE dest!: cursor_keeps all_keepD[OF a]
      split: if_splits option.splits prefixParseFn.splits infixParseFn.splits)


lemma all_keep_methods: "all_keep (methods n)"
proof (induction n)
  case 0
  show ?case by (simp add: all_keep_def keep_def methods_0_fields)
next
  case (Suc n)
  show ?case
    unfolding all_keep_def methods_Suc_fields
    using keep_parseStmt_body[OF Suc] keep_parseVarStmt_body[OF Suc]
      keep_parseVarStmt_loop_body[OF Suc] keep_parseExprStmt_body[OF Suc]
      keep_parseExpr_body[OF Suc] keep_parseExpr_loop_body[OF Suc]
      keep_parsePrefixExpr_body[OF Suc] keep_parseInfixExpr_body[OF Suc]
      keep_parseGroupingExpr_body[OF Suc] keep_parseIfExpr_body[OF Suc]
      keep_parseBlockStmt_body[OF Suc] keep_parseBlockStmt_indents_body[OF Suc]
      keep_parseBlockStmt_loop_body[OF Suc] keep_parseBlockStmt_skip_body[OF Suc]
      keep_parseCallExpr_body[OF Suc] keep_parseCallArgs_body[OF Suc]
      keep_parseCallArgs_loop_body[OF Suc] keep_parseWhileExpr_body[OF Suc]
    by blast
qed

text \<open>
  C10. Every call of \<^verbatim>\<open>parseBlockStmt\<close> that returns leaves the indentation depth of the
  parser equal to its value on entry, whatever the tokens, the position and the fuel: the
  one increment and the one decrement enclose calls that all keep the depth.
\<close>

theorem C10_parseBlockStmt_keeps_indentLevel:
  assumes "parseBlockStmt (methods n) p = Ret b p'"
  shows "indentLevel p' = indentLevel p"
  using all_keepD(11)[OF all_keep_methods assms] .

text \<open>
  The call that \<^verbatim>\<open>parseIfExpr\<close> makes on \<open>if x > 1:\<close>, a newline, a tab, \<open>y = 2\<close> and a newline,
  with the cursor on the first newline: the block holds the binding of \<open>y\<close>, the cursor ends
  on the end of input, and the depth is 0 before and after.
\<close>

theorem C10_parseBlockStmt_keeps_indentLevel_witness:
  "parseBlockStmt (methods 20)
     \<lparr>ptokens = [tok IF ''if'' 1 0, tok IDENT ''x'' 1 3, tok GREAT ''>'' 1 5, tok NUM ''1'' 1 7,
                 tok COLON '':'' 1 8, tok NL NL 1 9, tok INDENT INDENT 2 1, tok IDENT ''y'' 2 5,
                 tok EQUALS ''='' 2 7, tok NUM ''2'' 2 9, tok NL NL 2 10, tok EOF [] 4 0],
      pindex = 5, statements = [], errors = [], prefixParseFns = prefixTable,
      infixParseFns = infixTable, indentLevel = 0\<rparr> =
   Ret (BlockStmt (tok IDENT ''y'' 2 5)
          [VarStmt (tok IDENT ''y'' 2 5) (Identifier (tok IDENT ''y'' 2 5) ''y'')
             (Some (IntLiteral (tok NUM ''2'' 2 9) 2))])
     \<lparr>ptokens = [tok IF ''if'' 1 0, tok IDENT ''x'' 1 3, tok GREAT ''>'' 1 5, tok NUM ''1'' 1 7,
                 tok COLON '':'' 1 8, tok NL NL 1 9, tok INDENT INDENT 2 1, tok IDENT ''y'' 2 5,
                 tok EQUALS ''='' 2 7, tok NUM ''2'' 2 9, tok NL NL 2 10, tok EOF [] 4 0],
      pindex = 11, statements = [], errors = [], prefixParseFns = prefixTable,
      infixParseFns = infixTable, indentLevel = 0\<rparr> \<and>
   indentLevel
     \<lparr>ptokens = [tok IF ''if'' 1 0, tok IDENT ''x'' 1 3, tok GREAT ''>'' 1 5, tok NUM ''1'' 1 7,
                 tok COLON '':'' 1 8, tok NL NL 1 9, tok INDENT INDENT 2 1, tok IDENT ''y'' 2 5,
                 tok EQUALS ''='' 2 7, tok NUM ''2'' 2 9, tok NL NL 2 10, tok EOF [] 4 0],
      pindex = 11, statements = [], errors = [], prefixParseFns = prefixTable,
      infixParseFns = infixTable, indentLevel = 0\<rparr> =
   indentLevel
     \<lparr>ptokens = [tok IF ''if'' 1 0, tok IDENT ''x'' 1 3, tok GREAT ''>'' 1 5, tok NUM ''1'' 1 7,
                 tok COLON '':'' 1 8, tok NL NL 1 9, tok INDENT INDENT 2 1, tok IDENT ''y'' 2 5,
                 tok EQUALS ''='' 2 7, tok NUM ''2'' 2 9, tok NL NL 2 10, tok EOF [] 4 0],
      pindex = 5, statements = [], errors = [], prefixParseFns = prefixTable,
      infixParseFns = infixTable, indentLevel = 0\<rparr>"
proof -
  have e: "parseBlockStmt (methods 20)
     \<lparr>ptokens = [tok IF ''if'' 1 0, tok IDENT ''x'' 1 3, tok GREAT ''>'' 1 5, tok NUM ''1'' 1 7,
                 tok COLON '':'' 1 8, tok NL NL 1 9, tok INDENT INDENT 2 1, tok IDENT ''y'' 2 5,
                 tok EQUALS ''='' 2 7, tok NUM ''2'' 2 9, tok NL NL 2 10, tok EOF [] 4 0],
      pindex = 5, statements = [], errors = [], prefixParseFns = prefixTable,
      infixParseFns = infixTable, indentLevel = 0\<rparr> =
   Ret (BlockStmt (tok IDENT ''y'' 2 5)
          [VarStmt (tok IDENT ''y'' 2 5) (Identifier (tok IDENT ''y'' 2 5) ''y'')
             (Some (IntLiteral (tok NUM ''2'' 2 9) 2))])
     \<lparr>ptokens = [tok IF ''if'' 1 0, tok IDENT ''x'' 1 3, tok GREAT ''>'' 1 5, tok NUM ''1'' 1 7,
                 tok COLON '':'' 1 8, tok NL NL 1 9, tok INDENT INDENT 2 1, tok IDENT ''y'' 2 5,
                 tok EQUALS ''='' 2 7, tok NUM ''2'' 2 9, tok NL NL 2 10, tok EOF [] 4 0],
      pindex = 11, statements = [], errors = [], prefixParseFns = prefixTable,
      infixParseFns = infixTable, indentLevel = 0\<rparr>"
    by (simp add: parser_eval tok_def ParseInt_digits cong: bind_weak_cong)
  from e C10_parseBlockStmt_keeps_indentLevel[OF e] show ?thesis by (rule conjI)
qed

end
